theory Spec2Isabelle
  imports Main
begin

section \<open>Python values and exceptions\<close>

text \<open>
  The binding layer of \<^verbatim>\<open>py_sd_bus/dbus_proxy.py\<close> moves Python objects around without
  looking into them, except for three tests: \<^verbatim>\<open>is None\<close>, \<^verbatim>\<open>isinstance(x, tuple)\<close> and
  truthiness of an argument tuple. The value type keeps exactly these shapes apart.
\<close>

datatype pyval =
    PNone
  | PInt int
  | PStr string
  | PTuple "pyval list"

text \<open>
  Every \<^verbatim>\<open>raise\<close>, every failing \<^verbatim>\<open>assert\<close> and every failing attribute or iterator
  access of the source is a value of this type. \<open>UserError\<close> stands for whatever a
  user-written method, getter or setter raises.
\<close>

datatype error =
    TypeError string
  | ValueError string
  | AssertionError
  | AttributeError string
  | RuntimeError string
  | StopIteration
  | IndexError
  | UnboundLocalError string
  | UserError string

section \<open>Name mapper\<close>

text \<open>
  \<^verbatim>\<open>str.upper()\<close> on one character, for the ASCII range the identifiers of the library
  live in: the letters \<^verbatim>\<open>a\<close> to \<^verbatim>\<open>z\<close> move to \<^verbatim>\<open>A\<close> to \<^verbatim>\<open>Z\<close>, every other character
  is left as it is.
\<close>

definition is_lower :: "char \<Rightarrow> bool" where
  "is_lower c = (97 \<le> (of_char c :: nat) \<and> (of_char c :: nat) \<le> 122)"

definition is_upper :: "char \<Rightarrow> bool" where
  "is_upper c = (65 \<le> (of_char c :: nat) \<and> (of_char c :: nat) \<le> 90)"

definition upper :: "char \<Rightarrow> char" where
  "upper c = (if is_lower c then char_of ((of_char c :: nat) - 32) else c)"

text \<open>
  The body of the \<^verbatim>\<open>for c in char_iter\<close> loop of \<^verbatim>\<open>_method_name_converter\<close>, with the
  flag \<^verbatim>\<open>upper_next_one\<close> as an argument; the list returned is the sequence of
  yielded characters.
\<close>

fun convert_rest :: "bool \<Rightarrow> string \<Rightarrow> string" where
  "convert_rest upper_next_one [] = []"
| "convert_rest upper_next_one (c # char_iter) =
     (if c \<noteq> CHR ''_'' then
        (if upper_next_one then upper c # convert_rest False char_iter
         else c # convert_rest upper_next_one char_iter)
      else convert_rest True char_iter)"

text \<open>
  \<^verbatim>\<open>''.join(_method_name_converter(python_name))\<close>. On the empty string
  \<^verbatim>\<open>next(char_iter)\<close> raises \<^verbatim>\<open>StopIteration\<close> inside the generator, which Python turns into
  a \<^verbatim>\<open>RuntimeError\<close> for the consumer.
\<close>

definition method_name_converter :: "string \<Rightarrow> error + string" where
  "method_name_converter python_name =
     (case python_name of
        [] \<Rightarrow> Inl (RuntimeError ''generator raised StopIteration'')
      | first_char # char_iter \<Rightarrow> Inr (upper first_char # convert_rest False char_iter))"

text \<open>
  The contract in the words of the specification: an identifier is a sequence of
  lowercase words joined by single underscores; its wire name is the words, each with
  its first character capitalised, written one after the other.
\<close>

fun join_underscore :: "string list \<Rightarrow> string" where
  "join_underscore [] = []"
| "join_underscore [w] = w"
| "join_underscore (w # ws) = w @ CHR ''_'' # join_underscore ws"

definition lower_word :: "string \<Rightarrow> bool" where
  "lower_word w = (w \<noteq> [] \<and> list_all is_lower w)"

definition capitalize :: "string \<Rightarrow> string" where
  "capitalize w = (case w of [] \<Rightarrow> [] | c # cs \<Rightarrow> upper c # cs)"

definition camel_case :: "string list \<Rightarrow> string" where
  "camel_case ws = concat (map capitalize ws)"

section \<open>The bus engine as seen from the binding layer\<close>

text \<open>
  \<^verbatim>\<open>sd_bus_internals\<close> is an external collaborator. A bus handle is an address; a message
  built through the engine is its header and the \<^verbatim>\<open>append_data(signature, *values)\<close> calls
  made on it; an interface registration (\<^verbatim>\<open>SdBusInterface\<close>) is the list of
  \<^verbatim>\<open>add_method\<close>, \<^verbatim>\<open>add_property\<close> and \<^verbatim>\<open>add_signal\<close> calls made on it. A dispatch entry
  point handed to the engine is a bound method of a bound member; it is named by the
  attribute key of that member on the instance.
\<close>

type_synonym sd_bus = nat

datatype message_kind =
    MethodCallMessage
  | PropertyGetMessage
  | PropertySetMessage
  | SignalMessage
  | ReplyMessage

record sd_bus_message =
  msg_kind :: message_kind
  msg_destination :: "string option"
  msg_path :: "string option"
  msg_interface :: "string option"
  msg_member :: "string option"
  msg_body :: "(string \<times> pyval list) list"

definition new_method_call_message :: "string \<Rightarrow> string \<Rightarrow> string \<Rightarrow> string \<Rightarrow> sd_bus_message" where
  "new_method_call_message service path iface name =
     \<lparr>msg_kind = MethodCallMessage, msg_destination = Some service, msg_path = Some path,
      msg_interface = Some iface, msg_member = Some name, msg_body = []\<rparr>"

definition new_property_get_message :: "string \<Rightarrow> string \<Rightarrow> string \<Rightarrow> string \<Rightarrow> sd_bus_message" where
  "new_property_get_message service path iface name =
     \<lparr>msg_kind = PropertyGetMessage, msg_destination = Some service, msg_path = Some path,
      msg_interface = Some iface, msg_member = Some name, msg_body = []\<rparr>"

definition new_property_set_message :: "string \<Rightarrow> string \<Rightarrow> string \<Rightarrow> string \<Rightarrow> sd_bus_message" where
  "new_property_set_message service path iface name =
     \<lparr>msg_kind = PropertySetMessage, msg_destination = Some service, msg_path = Some path,
      msg_interface = Some iface, msg_member = Some name, msg_body = []\<rparr>"

definition new_signal_message :: "string \<Rightarrow> string \<Rightarrow> string \<Rightarrow> sd_bus_message" where
  "new_signal_message path iface name =
     \<lparr>msg_kind = SignalMessage, msg_destination = None, msg_path = Some path,
      msg_interface = Some iface, msg_member = Some name, msg_body = []\<rparr>"

definition append_data :: "sd_bus_message \<Rightarrow> string \<Rightarrow> pyval list \<Rightarrow> sd_bus_message" where
  "append_data msg signature vals = msg\<lparr>msg_body := msg_body msg @ [(signature, vals)]\<rparr>"

text \<open>
  A message received from the engine: the header it came with and what
  \<^verbatim>\<open>get_contents()\<close> decodes its payload to. \<^verbatim>\<open>create_reply()\<close> makes an empty reply
  addressed by the same header.
\<close>

record received_message =
  rcv_path :: "string option"
  rcv_interface :: "string option"
  rcv_member :: "string option"
  rcv_contents :: pyval

definition create_reply :: "received_message \<Rightarrow> sd_bus_message" where
  "create_reply request =
     \<lparr>msg_kind = ReplyMessage, msg_destination = None, msg_path = rcv_path request,
      msg_interface = rcv_interface request, msg_member = rcv_member request, msg_body = []\<rparr>"

datatype entry_point =
    CallFromDbus string
  | GetSync string
  | SetSync string

datatype interface_member =
    MethodMember string string string string "string list" int entry_point
  | PropertyMember string string entry_point "entry_point option" int
  | SignalMember string string "string list" int

type_synonym sd_bus_interface = "interface_member list"

datatype bus_event =
    CallAsync sd_bus sd_bus_message
  | MessageSent sd_bus_message
  | AddInterface sd_bus sd_bus_interface string string
  | GetSignalQueue sd_bus string string string string

section \<open>Instance state\<close>

text \<open>
  The attributes \<^verbatim>\<open>DbusInterfaceBase.__init__\<close> sets. An object made by \<^verbatim>\<open>new_connect\<close>
  never runs \<^verbatim>\<open>__init__\<close>, so three of the attributes may not exist at all: for these the
  outer \<open>option\<close> is \<open>None\<close> when the attribute was never set, and reading it raises
  \<^verbatim>\<open>AttributeError\<close>. The dictionary \<^verbatim>\<open>_local_signal_queues\<close> is keyed by the signal
  descriptor object (by identity: its address); its values are lists of weak references,
  each the address of an \<^verbatim>\<open>asyncio.Queue\<close>. \<open>user_attrs\<close> holds whatever else user code
  stores on the object.
\<close>

record dbus_object =
  activated_interfaces :: "sd_bus_interface list option"
  is_binded :: bool
  remote_service_name :: "string option"
  remote_object_path :: "string option"
  attached_bus :: "sd_bus option"
  serving_object_path :: "string option option"
  local_signal_queues :: "(nat \<rightharpoonup> nat list) option"
  user_attrs :: "(string \<times> pyval) list"

definition DbusInterfaceBase_init :: dbus_object where
  "DbusInterfaceBase_init =
     \<lparr>activated_interfaces = Some [], is_binded = False, remote_service_name = None,
      remote_object_path = None, attached_bus = None, serving_object_path = Some None,
      local_signal_queues = Some Map.empty, user_attrs = []\<rparr>"

text \<open>
  \<^verbatim>\<open>new_connect\<close>: \<^verbatim>\<open>cls.__new__(cls)\<close> allocates an object with no attributes, then
  \<^verbatim>\<open>_connect\<close> sets four of them.
\<close>

definition connect :: "dbus_object \<Rightarrow> sd_bus \<Rightarrow> string \<Rightarrow> string \<Rightarrow> dbus_object" where
  "connect self bus service_name object_path =
     self\<lparr>is_binded := True, attached_bus := Some bus,
          remote_service_name := Some service_name, remote_object_path := Some object_path\<rparr>"

text \<open>
  The object \<^verbatim>\<open>cls.__new__(cls)\<close> returns has none of the attributes. The four that
  \<^verbatim>\<open>_connect\<close> assigns next are given placeholder values here, which \<open>connect\<close> overwrites.
\<close>

definition object_new :: dbus_object where
  "object_new =
     \<lparr>activated_interfaces = None, is_binded = False, remote_service_name = None,
      remote_object_path = None, attached_bus = None, serving_object_path = None,
      local_signal_queues = None, user_attrs = []\<rparr>"

definition new_connect :: "sd_bus \<Rightarrow> string \<Rightarrow> string \<Rightarrow> dbus_object" where
  "new_connect bus service_name object_path = connect object_new bus service_name object_path"

text \<open>
  The world a bound member acts in: the owning instance, what has been handed to the
  bus engine so far, what the engine answers to \<^verbatim>\<open>call_async\<close> (a reply's decoded
  contents, or the error it raises), and the heap of live \<^verbatim>\<open>asyncio.Queue\<close> objects made
  for local subscribers: an address is mapped to the signal descriptor the queue was
  made for (its weak reference's callback is bound to it) and the queued items; a
  collected queue has no entry.
\<close>

record world =
  inst :: dbus_object
  bus_log :: "bus_event list"
  bus_reply :: "sd_bus_message \<Rightarrow> error + pyval"
  queues :: "nat \<rightharpoonup> nat \<times> pyval list"
  next_queue :: nat

section \<open>Functions and member descriptors\<close>

text \<open>
  A Python function object, as far as the binding layer looks at it: its \<^verbatim>\<open>__name__\<close>,
  what \<^verbatim>\<open>getfullargspec\<close> reports (\<^verbatim>\<open>args\<close> with the receiver first, \<^verbatim>\<open>defaults\<close> or the
  empty tuple), and what calling it with a receiver, positional and keyword arguments
  does: it returns or raises, and may change the receiver.
\<close>

type_synonym kwargs = "(string \<times> pyval) list"

record pyfunc =
  fn_name :: string
  fn_args :: "string list"
  fn_defaults :: "pyval list"
  fn_body :: "dbus_object \<Rightarrow> pyval list \<Rightarrow> kwargs \<Rightarrow> (error + pyval) \<times> dbus_object"

record dbus_something =
  interface_name :: "string option"
  serving_enabled :: bool

record dbus_method = dbus_something +
  original_method :: pyfunc
  args_spec_args :: "string list"
  args_names :: "string list"
  num_of_args :: nat
  args_defaults :: "pyval list"
  default_args_start_at :: int
  method_name :: string
  input_signature :: string
  input_args_names :: string
  result_signature :: string
  result_args_names :: "string list"
  method_flags :: int

record dbus_property = dbus_something +
  property_name :: string
  property_signature :: string
  property_get :: "dbus_object \<Rightarrow> (error + pyval) \<times> dbus_object"
  property_set :: "(dbus_object \<Rightarrow> pyval \<Rightarrow> (error + pyval) \<times> dbus_object) option"
  property_flags :: int

record dbus_signal = dbus_something +
  signal_name :: string
  signal_signature :: string
  signal_args_names :: "string list"
  signal_flags :: int

text \<open>
  \<^verbatim>\<open>DbusMethod.__init__\<close>. \<^verbatim>\<open>args_spec.args[1:]\<close> drops the receiver (and is empty for a
  function with no parameter at all). The attribute \<^verbatim>\<open>dbus_method\<close>, set to \<^verbatim>\<open>None\<close> and never
  read, is left out.
\<close>

definition DbusMethod_init ::
  "pyfunc \<Rightarrow> string option \<Rightarrow> string \<Rightarrow> string \<Rightarrow> string list \<Rightarrow> int \<Rightarrow> error + dbus_method" where
  "DbusMethod_init async_function name_opt in_sig res_sig res_names flags =
     (case (case name_opt of
              None \<Rightarrow> method_name_converter (fn_name async_function)
            | Some n \<Rightarrow> Inr n) of
        Inl e \<Rightarrow> Inl e
      | Inr name \<Rightarrow>
          Inr \<lparr>interface_name = None, serving_enabled = True,
               original_method = async_function,
               args_spec_args = fn_args async_function,
               args_names = tl (fn_args async_function),
               num_of_args = length (tl (fn_args async_function)),
               args_defaults = fn_defaults async_function,
               default_args_start_at =
                 int (length (tl (fn_args async_function))) - int (length (fn_defaults async_function)),
               method_name = name,
               input_signature = in_sig, input_args_names = [],
               result_signature = res_sig, result_args_names = res_names,
               method_flags = flags\<rparr>)"

section \<open>Bound method\<close>

text \<open>
  The \<^verbatim>\<open>if\<close>/\<^verbatim>\<open>elif\<close> chain at the end of the loop body of \<^verbatim>\<open>_rebuild_args\<close>.
\<close>

definition pick_arg :: "pyval \<Rightarrow> pyval \<Rightarrow> pyval \<Rightarrow> error + pyval" where
  "pick_arg next_arg next_kwarg next_default_arg =
     (if next_arg \<noteq> PNone then Inr next_arg
      else if next_kwarg \<noteq> PNone then Inr next_kwarg
      else if next_default_arg \<noteq> PNone then Inr next_default_arg
      else Inl (TypeError ''Could not flatten the args''))"

definition kwargs_get :: "kwargs \<Rightarrow> string \<Rightarrow> pyval" where
  "kwargs_get kw a_name = (case map_of kw a_name of None \<Rightarrow> PNone | Some v \<Rightarrow> v)"

text \<open>
  The loop \<^verbatim>\<open>for i, a_name in enumerate(args_spec.args[1:])\<close> with its two iterators
  \<^verbatim>\<open>passed_args_iter\<close> and \<^verbatim>\<open>default_args_iter\<close> as the lists of what they have left.
  \<^verbatim>\<open>next\<close> on the exhausted \<^verbatim>\<open>passed_args_iter\<close> is caught and gives \<^verbatim>\<open>None\<close>; on the
  exhausted \<^verbatim>\<open>default_args_iter\<close> it is not caught.
\<close>

fun rebuild_loop ::
  "int \<Rightarrow> kwargs \<Rightarrow> nat \<Rightarrow> string list \<Rightarrow> pyval list \<Rightarrow> pyval list \<Rightarrow> error + pyval list" where
  "rebuild_loop start kw i [] passed_args_iter default_args_iter = Inr []"
| "rebuild_loop start kw i (a_name # names) passed_args_iter default_args_iter =
     (let next_arg = (case passed_args_iter of [] \<Rightarrow> PNone | x # _ \<Rightarrow> x) in
      case (if start \<le> int i then
              (case default_args_iter of
                 [] \<Rightarrow> Inl StopIteration
               | d # ds \<Rightarrow> Inr (d, ds))
            else Inr (PNone, default_args_iter)) of
        Inl e \<Rightarrow> Inl e
      | Inr (next_default_arg, defaults_left) \<Rightarrow>
          (case pick_arg next_arg (kwargs_get kw a_name) next_default_arg of
             Inl e \<Rightarrow> Inl e
           | Inr v \<Rightarrow>
               (case rebuild_loop start kw (Suc i) names (tl passed_args_iter) defaults_left of
                  Inl e \<Rightarrow> Inl e
                | Inr new_args_list \<Rightarrow> Inr (v # new_args_list))))"

definition rebuild_args :: "dbus_method \<Rightarrow> pyval list \<Rightarrow> kwargs \<Rightarrow> error + pyval list" where
  "rebuild_args m args kw =
     rebuild_loop (default_args_start_at m) kw 0 (tl (args_spec_args m)) args (args_defaults m)"

text \<open>
  \<^verbatim>\<open>_call_dbus\<close>, awaited: the four assertions, the request message, the arguments
  appended when there are any, and the reply's decoded contents (or the error
  \<^verbatim>\<open>call_async\<close> raises).
\<close>

definition call_dbus :: "dbus_method \<Rightarrow> world \<Rightarrow> pyval list \<Rightarrow> (error + pyval) \<times> world" where
  "call_dbus m w args =
     (case attached_bus (inst w) of
        None \<Rightarrow> (Inl AssertionError, w)
      | Some bus \<Rightarrow>
     (case remote_service_name (inst w) of
        None \<Rightarrow> (Inl AssertionError, w)
      | Some service \<Rightarrow>
     (case remote_object_path (inst w) of
        None \<Rightarrow> (Inl AssertionError, w)
      | Some path \<Rightarrow>
     (case interface_name m of
        None \<Rightarrow> (Inl AssertionError, w)
      | Some iface \<Rightarrow>
          (let new_call_message = new_method_call_message service path iface (method_name m);
               sent = (if args \<noteq> [] then append_data new_call_message (input_signature m) args
                       else new_call_message)
           in (bus_reply w sent, w\<lparr>bus_log := bus_log w @ [CallAsync bus sent]\<rparr>))))))"

text \<open>
  \<^verbatim>\<open>DbusMethodBinded.__call__\<close>, with the coroutine it returns awaited. Python binds the
  caller's keywords before a body runs, and two of the functions on the way have a named
  parameter of their own next to \<^verbatim>\<open>**kwargs\<close>: \<^verbatim>\<open>__call__(self, *args, **kwargs)\<close> and
  \<^verbatim>\<open>_rebuild_args(self, function, *args, **kwargs)\<close>, the latter called as
  \<^verbatim>\<open>self._rebuild_args(original_method, *args, **kwargs)\<close>. A keyword \<^verbatim>\<open>self\<close> therefore
  raises \<^verbatim>\<open>TypeError\<close> (multiple values for the argument) when \<^verbatim>\<open>__call__\<close> is entered, and
  a keyword \<^verbatim>\<open>function\<close> raises it when \<^verbatim>\<open>_rebuild_args\<close> is. On an instance that is not
  bound the keywords go on to the underlying function, whose own binding of its receiver
  rejects a keyword \<^verbatim>\<open>self\<close> in the same way; that is part of what calling the function
  does.
\<close>

definition method_call :: "dbus_method \<Rightarrow> world \<Rightarrow> pyval list \<Rightarrow> kwargs \<Rightarrow> (error + pyval) \<times> world" where
  "method_call m w args kw =
     (if is_binded (inst w) then
        (if ''self'' \<in> fst ` set kw then
           (Inl (TypeError ''__call__() got multiple values for argument self''), w)
         else if length args = num_of_args m then
           (if kw \<noteq> [] then (Inl AssertionError, w) else call_dbus m w args)
         else if ''function'' \<in> fst ` set kw then
           (Inl (TypeError ''_rebuild_args() got multiple values for argument function''), w)
         else
           (case rebuild_args m args kw of
              Inl e \<Rightarrow> (Inl e, w)
            | Inr rebuilt_args \<Rightarrow> call_dbus m w rebuilt_args))
      else
        (case fn_body (original_method m) (inst w) args kw of
           (r, self') \<Rightarrow> (r, w\<lparr>inst := self'\<rparr>)))"

text \<open>
  \<^verbatim>\<open>_call_from_dbus\<close>, the entry point the engine calls for an inbound method call.
  There is no \<^verbatim>\<open>try\<close> in it: what the local method raises leaves the function.
\<close>

definition call_from_dbus :: "dbus_method \<Rightarrow> world \<Rightarrow> received_message \<Rightarrow> (error + pyval) \<times> world" where
  "call_from_dbus m w request_message =
     (let request_data = rcv_contents request_message;
          reply_message = create_reply request_message
      in case (case request_data of
                 PTuple xs \<Rightarrow> fn_body (original_method m) (inst w) xs []
               | PNone \<Rightarrow> fn_body (original_method m) (inst w) [] []
               | _ \<Rightarrow> fn_body (original_method m) (inst w) [request_data] []) of
           (Inl e, self') \<Rightarrow> (Inl e, w\<lparr>inst := self'\<rparr>)
         | (Inr reply_data, self') \<Rightarrow>
             (let filled = (case reply_data of
                              PTuple ys \<Rightarrow> append_data reply_message (result_signature m) ys
                            | PNone \<Rightarrow> reply_message
                            | _ \<Rightarrow> append_data reply_message (result_signature m) [reply_data])
              in (Inr PNone, w\<lparr>inst := self', bus_log := bus_log w @ [MessageSent filled]\<rparr>)))"

section \<open>Argument reconstruction, stated per slot\<close>

text \<open>
  A descriptor as \<^verbatim>\<open>DbusMethod.__init__\<close> builds it from a function whose receiver has no
  default value: the parameter names are the function's without the receiver, and the
  defaults belong to the last parameters.
\<close>

definition wf_method :: "dbus_method \<Rightarrow> bool" where
  "wf_method m =
     (args_names m = tl (args_spec_args m)
      \<and> num_of_args m = length (args_names m)
      \<and> length (args_defaults m) \<le> num_of_args m
      \<and> default_args_start_at m = int (num_of_args m) - int (length (args_defaults m)))"













section \<open>Example objects\<close>

text \<open>
  A method \<^verbatim>\<open>async def example(self, a, b, c=1, d=2)\<close> that returns its positional
  arguments as a tuple, and its descriptor in an interface \<^verbatim>\<open>org.example\<close>.
\<close>

definition example_function :: pyfunc where
  "example_function =
     \<lparr>fn_name = ''example'', fn_args = [''self'', ''a'', ''b'', ''c'', ''d''],
      fn_defaults = [PInt 1, PInt 2],
      fn_body = (\<lambda>self args kw. (Inr (PTuple args), self))\<rparr>"

definition example_method :: dbus_method where
  "example_method =
     \<lparr>interface_name = Some ''org.example'', serving_enabled = True,
      original_method = example_function,
      args_spec_args = [''self'', ''a'', ''b'', ''c'', ''d''],
      args_names = [''a'', ''b'', ''c'', ''d''],
      num_of_args = 4,
      args_defaults = [PInt 1, PInt 2],
      default_args_start_at = 2,
      method_name = ''Example'',
      input_signature = ''iiii'', input_args_names = [],
      result_signature = ''(iiii)'', result_args_names = [],
      method_flags = 0\<rparr>"

text \<open>A method \<^verbatim>\<open>async def lookup(self, key, fallback=None)\<close>.\<close>

definition lookup_method :: dbus_method where
  "lookup_method =
     \<lparr>interface_name = Some ''org.example'', serving_enabled = True,
      original_method =
        \<lparr>fn_name = ''lookup'', fn_args = [''self'', ''key'', ''fallback''],
         fn_defaults = [PNone],
         fn_body = (\<lambda>self args kw. (Inr PNone, self))\<rparr>,
      args_spec_args = [''self'', ''key'', ''fallback''],
      args_names = [''key'', ''fallback''],
      num_of_args = 2,
      args_defaults = [PNone],
      default_args_start_at = 1,
      method_name = ''Lookup'',
      input_signature = ''ss'', input_args_names = [],
      result_signature = ''s'', result_args_names = [],
      method_flags = 0\<rparr>"

text \<open>
  A method \<^verbatim>\<open>async def apply(self, function, x=1)\<close>, and a method whose receiver has a
  default value, \<^verbatim>\<open>async def odd(self=0, a=5)\<close>, each with the fields
  \<^verbatim>\<open>DbusMethod.__init__\<close> derives.
\<close>

definition apply_method :: dbus_method where
  "apply_method =
     \<lparr>interface_name = Some ''org.example'', serving_enabled = True,
      original_method =
        \<lparr>fn_name = ''apply'', fn_args = [''self'', ''function'', ''x''],
         fn_defaults = [PInt 1],
         fn_body = (\<lambda>self args kw. (Inr PNone, self))\<rparr>,
      args_spec_args = [''self'', ''function'', ''x''],
      args_names = [''function'', ''x''],
      num_of_args = 2,
      args_defaults = [PInt 1],
      default_args_start_at = 1,
      method_name = ''Apply'',
      input_signature = ''si'', input_args_names = [],
      result_signature = [], result_args_names = [],
      method_flags = 0\<rparr>"

definition receiver_default_method :: dbus_method where
  "receiver_default_method =
     \<lparr>interface_name = Some ''org.example'', serving_enabled = True,
      original_method =
        \<lparr>fn_name = ''odd'', fn_args = [''self'', ''a''],
         fn_defaults = [PInt 0, PInt 5],
         fn_body = (\<lambda>self args kw. (Inr PNone, self))\<rparr>,
      args_spec_args = [''self'', ''a''],
      args_names = [''a''],
      num_of_args = 1,
      args_defaults = [PInt 0, PInt 5],
      default_args_start_at = - 1,
      method_name = ''Odd'',
      input_signature = ''i'', input_args_names = [],
      result_signature = [], result_args_names = [],
      method_flags = 0\<rparr>"

text \<open>A method whose implementation raises.\<close>

definition failing_method :: dbus_method where
  "failing_method =
     \<lparr>interface_name = Some ''org.example'', serving_enabled = True,
      original_method =
        \<lparr>fn_name = ''fail'', fn_args = [''self''], fn_defaults = [],
         fn_body = (\<lambda>self args kw. (Inl (UserError ''boom''), self))\<rparr>,
      args_spec_args = [''self''],
      args_names = [],
      num_of_args = 0,
      args_defaults = [],
      default_args_start_at = 0,
      method_name = ''Fail'',
      input_signature = [], input_args_names = [],
      result_signature = [], result_args_names = [],
      method_flags = 0\<rparr>"

text \<open>
  A world with an object made by \<^verbatim>\<open>__init__\<close>, and one with a proxy made by
  \<^verbatim>\<open>new_connect\<close>; the engine answers every call with an empty reply.
\<close>

definition local_world :: world where
  "local_world =
     \<lparr>inst = DbusInterfaceBase_init, bus_log = [], bus_reply = (\<lambda>msg. Inr PNone),
      queues = Map.empty, next_queue = 0\<rparr>"

definition proxy_world :: world where
  "proxy_world =
     \<lparr>inst = new_connect 1 ''org.example.Service'' ''/org/example'', bus_log = [],
      bus_reply = (\<lambda>msg. Inr PNone), queues = Map.empty, next_queue = 0\<rparr>"

text \<open>An inbound request for \<^verbatim>\<open>Fail\<close> with an empty payload.\<close>

definition fail_request :: received_message where
  "fail_request =
     \<lparr>rcv_path = Some ''/org/example'', rcv_interface = Some ''org.example'',
      rcv_member = Some ''Fail'', rcv_contents = PNone\<rparr>"

text \<open>
  The positional arguments an inbound payload is turned into: a tuple is splatted,
  \<^verbatim>\<open>None\<close> gives no argument, anything else is the single argument.
\<close>

definition splat :: "pyval \<Rightarrow> pyval list" where
  "splat request_data = (case request_data of PTuple xs \<Rightarrow> xs | PNone \<Rightarrow> [] | _ \<Rightarrow> [request_data])"

section \<open>Bound property\<close>

definition get_sync :: "dbus_property \<Rightarrow> world \<Rightarrow> (error + pyval) \<times> world" where
  "get_sync p w =
     (case property_get p (inst w) of (r, self') \<Rightarrow> (r, w\<lparr>inst := self'\<rparr>))"

definition set_sync :: "dbus_property \<Rightarrow> world \<Rightarrow> pyval \<Rightarrow> (error + pyval) \<times> world" where
  "set_sync p w complete_object =
     (case property_set p of
        None \<Rightarrow> (Inl (ValueError ''Property has no setter''), w)
      | Some setter_function \<Rightarrow>
          (case setter_function (inst w) complete_object of
             (Inl e, self') \<Rightarrow> (Inl e, w\<lparr>inst := self'\<rparr>)
           | (Inr _, self') \<Rightarrow> (Inr PNone, w\<lparr>inst := self'\<rparr>)))"

text \<open>\<^verbatim>\<open>x[1]\<close> on a decoded reply.\<close>

definition getitem_1 :: "pyval \<Rightarrow> error + pyval" where
  "getitem_1 x =
     (case x of
        PTuple xs \<Rightarrow> (if 1 < length xs then Inr (xs ! 1) else Inl IndexError)
      | PStr cs \<Rightarrow> (if 1 < length cs then Inr (PStr [cs ! 1]) else Inl IndexError)
      | _ \<Rightarrow> Inl (TypeError ''object is not subscriptable''))"

definition get_async :: "dbus_property \<Rightarrow> world \<Rightarrow> (error + pyval) \<times> world" where
  "get_async p w =
     (if \<not> is_binded (inst w) then
        (case property_get p (inst w) of (r, self') \<Rightarrow> (r, w\<lparr>inst := self'\<rparr>))
      else
     (case attached_bus (inst w) of
        None \<Rightarrow> (Inl AssertionError, w)
      | Some bus \<Rightarrow>
     (case remote_service_name (inst w) of
        None \<Rightarrow> (Inl AssertionError, w)
      | Some service \<Rightarrow>
     (case remote_object_path (inst w) of
        None \<Rightarrow> (Inl AssertionError, w)
      | Some path \<Rightarrow>
     (case interface_name p of
        None \<Rightarrow> (Inl AssertionError, w)
      | Some iface \<Rightarrow>
          (let new_call_message = new_property_get_message service path iface (property_name p)
           in (case bus_reply w new_call_message of
                 Inl e \<Rightarrow> Inl e
               | Inr contents \<Rightarrow> getitem_1 contents,
               w\<lparr>bus_log := bus_log w @ [CallAsync bus new_call_message]\<rparr>)))))))"

definition set_async :: "dbus_property \<Rightarrow> world \<Rightarrow> pyval \<Rightarrow> (error + pyval) \<times> world" where
  "set_async p w complete_object =
     (if \<not> is_binded (inst w) then
        (case property_set p of
           None \<Rightarrow> (Inl (ValueError ''Property has no setter''), w)
         | Some setter_function \<Rightarrow>
             (case setter_function (inst w) complete_object of
                (Inl e, self') \<Rightarrow> (Inl e, w\<lparr>inst := self'\<rparr>)
              | (Inr _, self') \<Rightarrow> (Inr PNone, w\<lparr>inst := self'\<rparr>)))
      else
     (case attached_bus (inst w) of
        None \<Rightarrow> (Inl AssertionError, w)
      | Some bus \<Rightarrow>
     (case remote_service_name (inst w) of
        None \<Rightarrow> (Inl AssertionError, w)
      | Some service \<Rightarrow>
     (case remote_object_path (inst w) of
        None \<Rightarrow> (Inl AssertionError, w)
      | Some path \<Rightarrow>
     (case interface_name p of
        None \<Rightarrow> (Inl AssertionError, w)
      | Some iface \<Rightarrow>
          (let new_call_message =
                 append_data (new_property_set_message service path iface (property_name p))
                   ''v'' [PTuple [PStr (property_signature p), complete_object]]
           in (case bus_reply w new_call_message of
                 Inl e \<Rightarrow> Inl e
               | Inr contents \<Rightarrow> Inr PNone,
               w\<lparr>bus_log := bus_log w @ [CallAsync bus new_call_message]\<rparr>)))))))"

section \<open>Bound signal\<close>

text \<open>
  A bound signal is its descriptor together with the descriptor's identity, which is
  the key of \<^verbatim>\<open>_local_signal_queues\<close>.
\<close>

definition emit_message :: "dbus_signal \<Rightarrow> world \<Rightarrow> pyval \<Rightarrow> (error + pyval) \<times> world" where
  "emit_message sg w args =
     (case attached_bus (inst w) of
        None \<Rightarrow> (Inl AssertionError, w)
      | Some bus \<Rightarrow>
     (case serving_object_path (inst w) of
        None \<Rightarrow> (Inl (AttributeError ''serving_object_path''), w)
      | Some None \<Rightarrow> (Inl AssertionError, w)
      | Some (Some path) \<Rightarrow>
     (case interface_name sg of
        None \<Rightarrow> (Inl AssertionError, w)
      | Some iface \<Rightarrow>
          (let signal_message = new_signal_message path iface (signal_name sg);
               filled =
                 (case args of
                    PTuple xs \<Rightarrow>
                      (if take 1 (signal_signature sg) \<noteq> ''(''
                       then append_data signal_message (signal_signature sg) xs
                       else append_data signal_message (signal_signature sg) [args])
                  | _ \<Rightarrow> append_data signal_message (signal_signature sg) [args])
           in (Inr PNone, w\<lparr>bus_log := bus_log w @ [MessageSent filled]\<rparr>)))))"

text \<open>
  The loop \<^verbatim>\<open>for local_queue_ref in list_of_queues\<close> of \<^verbatim>\<open>emit\<close>: a weak reference whose
  queue is gone fails the assertion; otherwise the value is put at the end of the queue
  (the queues are unbounded, so \<^verbatim>\<open>put_nowait\<close> does not fail).
\<close>

fun put_all :: "nat list \<Rightarrow> pyval \<Rightarrow> world \<Rightarrow> (error + pyval) \<times> world" where
  "put_all [] args w = (Inr PNone, w)"
| "put_all (local_queue_ref # refs) args w =
     (case queues w local_queue_ref of
        None \<Rightarrow> (Inl AssertionError, w)
      | Some (owner, queued) \<Rightarrow>
          put_all refs args (w\<lparr>queues := (queues w)(local_queue_ref \<mapsto> (owner, queued @ [args]))\<rparr>))"

definition emit :: "nat \<Rightarrow> dbus_signal \<Rightarrow> world \<Rightarrow> pyval \<Rightarrow> (error + pyval) \<times> world" where
  "emit sig_id sg w args =
     (case activated_interfaces (inst w) of
        None \<Rightarrow> (Inl (AttributeError ''activated_interfaces''), w)
      | Some acts \<Rightarrow>
          (case (if acts \<noteq> [] then emit_message sg w args else (Inr PNone, w)) of
             (Inl e, w') \<Rightarrow> (Inl e, w')
           | (Inr _, w') \<Rightarrow>
               (case local_signal_queues (inst w') of
                  None \<Rightarrow> (Inl (AttributeError ''_local_signal_queues''), w')
                | Some d \<Rightarrow>
                    (case d sig_id of
                       None \<Rightarrow> (Inr PNone, w')
                     | Some list_of_queues \<Rightarrow> put_all list_of_queues args w'))))"

text \<open>
  \<^verbatim>\<open>_get_local_queue\<close>: a new queue at a fresh address, its weak reference appended to
  the signal's list (made first when the key is missing). The address is returned.
\<close>

definition get_local_queue :: "nat \<Rightarrow> world \<Rightarrow> (error + nat) \<times> world" where
  "get_local_queue sig_id w =
     (case local_signal_queues (inst w) of
        None \<Rightarrow> (Inl (AttributeError ''_local_signal_queues''), w)
      | Some d \<Rightarrow>
          (let list_of_queues = (case d sig_id of None \<Rightarrow> [] | Some l \<Rightarrow> l);
               new_queue = next_queue w
           in (Inr new_queue,
               w\<lparr>inst := (inst w)\<lparr>local_signal_queues :=
                            Some (d(sig_id \<mapsto> list_of_queues @ [new_queue]))\<rparr>,
                 queues := (queues w)(new_queue \<mapsto> (sig_id, [])),
                 next_queue := Suc new_queue\<rparr>)))"

text \<open>
  \<^verbatim>\<open>_get_dbus_queue\<close>, awaited: the assertions and the request to the engine for the
  queue of incoming signal messages.
\<close>

definition get_dbus_queue :: "dbus_signal \<Rightarrow> world \<Rightarrow> (error + pyval) \<times> world" where
  "get_dbus_queue sg w =
     (case attached_bus (inst w) of
        None \<Rightarrow> (Inl AssertionError, w)
      | Some bus \<Rightarrow>
     (case remote_service_name (inst w) of
        None \<Rightarrow> (Inl AssertionError, w)
      | Some service \<Rightarrow>
     (case remote_object_path (inst w) of
        None \<Rightarrow> (Inl AssertionError, w)
      | Some path \<Rightarrow>
     (case interface_name sg of
        None \<Rightarrow> (Inl AssertionError, w)
      | Some iface \<Rightarrow>
          (Inr PNone,
           w\<lparr>bus_log := bus_log w @ [GetSignalQueue bus service path iface (signal_name sg)]\<rparr>)))))"

text \<open>
  The start of \<^verbatim>\<open>__aiter__\<close>, up to the endless loop that awaits the queue: which queue
  the subscriber reads from.
\<close>

datatype subscription = DbusQueue | LocalQueue nat

definition aiter_start :: "nat \<Rightarrow> dbus_signal \<Rightarrow> world \<Rightarrow> (error + subscription) \<times> world" where
  "aiter_start sig_id sg w =
     (if is_binded (inst w) then
        (case get_dbus_queue sg w of
           (Inl e, w') \<Rightarrow> (Inl e, w')
         | (Inr _, w') \<Rightarrow> (Inr DbusQueue, w'))
      else
        (case get_local_queue sig_id w of
           (Inl e, w') \<Rightarrow> (Inl e, w')
         | (Inr q, w') \<Rightarrow> (Inr (LocalQueue q), w')))"

text \<open>
  A local queue is collected when its subscriber drops it: the queue leaves the heap
  and the callback of its weak reference, \<^verbatim>\<open>_cleanup_local_queue\<close>, removes the reference
  from the list of the signal it was made for. An error in the callback (a missing
  attribute, key or list entry) is ignored by the interpreter and changes nothing.
\<close>

definition cleanup_local_queue :: "nat \<Rightarrow> nat \<Rightarrow> world \<Rightarrow> world" where
  "cleanup_local_queue sig_id queue_ref w =
     (case local_signal_queues (inst w) of
        None \<Rightarrow> w
      | Some d \<Rightarrow>
          (case d sig_id of
             None \<Rightarrow> w
           | Some l \<Rightarrow>
               w\<lparr>inst := (inst w)\<lparr>local_signal_queues :=
                            Some (d(sig_id \<mapsto> remove1 queue_ref l))\<rparr>\<rparr>))"

definition collect_queue :: "nat \<Rightarrow> world \<Rightarrow> world" where
  "collect_queue q w =
     (case queues w q of
        None \<Rightarrow> w
      | Some (owner, queued) \<Rightarrow> cleanup_local_queue owner q (w\<lparr>queues := (queues w)(q := None)\<rparr>))"

text \<open>Example signals and properties.\<close>

definition changed_signal :: dbus_signal where
  "changed_signal =
     \<lparr>interface_name = Some ''org.example'', serving_enabled = True,
      signal_name = ''Changed'', signal_signature = ''i'', signal_args_names = [],
      signal_flags = 0\<rparr>"

definition readonly_property :: dbus_property where
  "readonly_property =
     \<lparr>interface_name = Some ''org.example'', serving_enabled = True,
      property_name = ''Version'', property_signature = ''s'',
      property_get = (\<lambda>self. (Inr (PStr ''1''), self)),
      property_set = None,
      property_flags = 0\<rparr>"

text \<open>A signal declared in a class that names no interface.\<close>

definition unnamed_signal :: dbus_signal where
  "unnamed_signal =
     \<lparr>interface_name = None, serving_enabled = True,
      signal_name = ''Changed'', signal_signature = ''i'', signal_args_names = [],
      signal_flags = 0\<rparr>"

text \<open>
  The local world after one subscription to the signal at address 0; the same object
  once it serves one interface at \<^verbatim>\<open>/org/example\<close> on bus 1; and the subscribed world with
  the subscriber's queue gone from the heap while its reference is still listed.
\<close>

definition subscribed_world :: world where
  "subscribed_world = snd (get_local_queue 0 local_world)"

definition serving_world :: world where
  "serving_world =
     subscribed_world\<lparr>inst := (inst subscribed_world)\<lparr>
        attached_bus := Some 1,
        serving_object_path := Some (Some ''/org/example''),
        activated_interfaces :=
          Some [[MethodMember ''Example'' ''iiii'' [] ''(iiii)'' [] 0 (CallFromDbus ''example'')]]\<rparr>\<rparr>"

definition dead_reference_world :: world where
  "dead_reference_world = subscribed_world\<lparr>queues := Map.empty\<rparr>"

section \<open>Signal emission, stated per queue\<close>

text \<open>
  The message \<^verbatim>\<open>_emit_message\<close> sends: a tuple is splatted unless the signature starts
  with a parenthesis.
\<close>

definition signal_message_for :: "dbus_signal \<Rightarrow> string \<Rightarrow> string \<Rightarrow> pyval \<Rightarrow> sd_bus_message" where
  "signal_message_for sg path iface v =
     append_data (new_signal_message path iface (signal_name sg)) (signal_signature sg)
       (case v of
          PTuple xs \<Rightarrow> (if take 1 (signal_signature sg) \<noteq> ''('' then xs else [v])
        | _ \<Rightarrow> [v])"

definition subscribers :: "(nat \<rightharpoonup> nat list) \<Rightarrow> nat \<Rightarrow> nat list" where
  "subscribers d sig_id = (case d sig_id of None \<Rightarrow> [] | Some l \<Rightarrow> l)"

text \<open>
  The heap after a value was put once into a queue for each reference to it in the
  list.
\<close>

definition delivered ::
  "nat list \<Rightarrow> pyval \<Rightarrow> (nat \<rightharpoonup> nat \<times> pyval list) \<Rightarrow> (nat \<rightharpoonup> nat \<times> pyval list)" where
  "delivered refs v qs =
     (\<lambda>q. case qs q of
             None \<Rightarrow> None
           | Some (owner, queued) \<Rightarrow> Some (owner, queued @ replicate (count_list refs q) v))"

text \<open>
  The invariant of the local subscriber lists: every listed reference is to a live
  queue made for that signal, no reference is listed twice, and every live queue lies
  below the allocation counter.
\<close>

definition refs_live :: "world \<Rightarrow> bool" where
  "refs_live w =
     ((\<forall>d sid l. local_signal_queues (inst w) = Some d \<longrightarrow> d sid = Some l \<longrightarrow>
          distinct l \<and> (\<forall>q \<in> set l. map_option fst (queues w q) = Some sid))
      \<and> (\<forall>q. queues w q \<noteq> None \<longrightarrow> q < next_queue w))"

datatype signal_op =
    Subscribe nat
  | Collect nat
  | Emit nat dbus_signal pyval

fun signal_step :: "world \<Rightarrow> signal_op \<Rightarrow> world" where
  "signal_step w (Subscribe sig_id) = snd (get_local_queue sig_id w)"
| "signal_step w (Collect q) = collect_queue q w"
| "signal_step w (Emit sig_id sg v) = snd (emit sig_id sg w v)"

section \<open>Serving\<close>

text \<open>
  What \<^verbatim>\<open>inspect.getmembers(self)\<close> yields: the attribute keys of the instance in sorted
  order, each with the value \<^verbatim>\<open>getattr\<close> gives. A descriptor found through the class is
  seen as its bound member; \<open>Descriptor\<close> is a descriptor object met unbound (stored on
  the instance itself), which fails the assertion at the head of the loop.
\<close>

datatype bound_member =
    MethodBinded dbus_method
  | PropertyBinded dbus_property
  | SignalBinded dbus_signal
  | Descriptor
  | OtherValue

text \<open>
  \<^verbatim>\<open>interface_map\<close>, a dictionary from interface name to member list, in insertion
  order. \<open>dict_append\<close> is the \<^verbatim>\<open>try\<close>/\<^verbatim>\<open>except KeyError\<close> block followed by
  \<^verbatim>\<open>interface_member_list.append(value)\<close>.
\<close>

fun dict_append :: "(string \<times> 'a list) list \<Rightarrow> string \<Rightarrow> 'a \<Rightarrow> (string \<times> 'a list) list" where
  "dict_append [] k v = [(k, [v])]"
| "dict_append ((k', vs) # rest) k v =
     (if k' = k then (k', vs @ [v]) # rest else (k', vs) # dict_append rest k v)"

text \<open>The first loop of \<^verbatim>\<open>start_serving\<close>, over \<^verbatim>\<open>getmembers(self)\<close>.\<close>

fun collect_members ::
  "(string \<times> bound_member) list \<Rightarrow> (string \<times> (string \<times> bound_member) list) list
     \<Rightarrow> error + (string \<times> (string \<times> bound_member) list) list" where
  "collect_members [] interface_map = Inr interface_map"
| "collect_members ((key, val) # rest) interface_map =
     (case val of
        Descriptor \<Rightarrow> Inl AssertionError
      | MethodBinded m \<Rightarrow>
          (if \<not> serving_enabled m then collect_members rest interface_map
           else (case interface_name m of
                   None \<Rightarrow> Inl AssertionError
                 | Some n \<Rightarrow> collect_members rest (dict_append interface_map n (key, val))))
      | PropertyBinded p \<Rightarrow>
          (if \<not> serving_enabled p then collect_members rest interface_map
           else (case interface_name p of
                   None \<Rightarrow> Inl AssertionError
                 | Some n \<Rightarrow> collect_members rest (dict_append interface_map n (key, val))))
      | _ \<Rightarrow> collect_members rest interface_map)"

text \<open>
  The \<^verbatim>\<open>if\<close>/\<^verbatim>\<open>elif\<close> chain of the second loop: what one member adds to the new
  \<^verbatim>\<open>SdBusInterface\<close>.
\<close>

definition interface_entry :: "string \<times> bound_member \<Rightarrow> error + interface_member" where
  "interface_entry km =
     (case km of
        (key, MethodBinded m) \<Rightarrow>
          Inr (MethodMember (method_name m) (input_signature m) (input_args_names m)
                 (result_signature m) (result_args_names m) (method_flags m) (CallFromDbus key))
      | (key, PropertyBinded p) \<Rightarrow>
          Inr (PropertyMember (property_name p) (property_signature p) (GetSync key)
                 (if property_set p \<noteq> None then Some (SetSync key) else None) (property_flags p))
      | (key, SignalBinded sg) \<Rightarrow>
          Inr (SignalMember (signal_name sg) (signal_signature sg) (signal_args_names sg)
                 (signal_flags sg))
      | _ \<Rightarrow> Inl (TypeError []))"

fun build_interface :: "(string \<times> bound_member) list \<Rightarrow> error + sd_bus_interface" where
  "build_interface [] = Inr []"
| "build_interface (km # member_list) =
     (case interface_entry km of
        Inl e \<Rightarrow> Inl e
      | Inr x \<Rightarrow>
          (case build_interface member_list of
             Inl e \<Rightarrow> Inl e
           | Inr new_interface \<Rightarrow> Inr (x # new_interface)))"

text \<open>The second loop, over \<^verbatim>\<open>interface_map.items()\<close>.\<close>

fun register_interfaces ::
  "sd_bus \<Rightarrow> string \<Rightarrow> (string \<times> (string \<times> bound_member) list) list \<Rightarrow> world
     \<Rightarrow> (error + pyval) \<times> world" where
  "register_interfaces bus object_path [] w = (Inr PNone, w)"
| "register_interfaces bus object_path ((iface_name, member_list) # rest) w =
     (case build_interface member_list of
        Inl e \<Rightarrow> (Inl e, w)
      | Inr new_interface \<Rightarrow>
          (let w1 = w\<lparr>bus_log := bus_log w @ [AddInterface bus new_interface object_path iface_name]\<rparr>
           in case activated_interfaces (inst w1) of
                None \<Rightarrow> (Inl (AttributeError ''activated_interfaces''), w1)
              | Some acts \<Rightarrow>
                  register_interfaces bus object_path rest
                    (w1\<lparr>inst := (inst w1)\<lparr>activated_interfaces := Some (acts @ [new_interface])\<rparr>\<rparr>)))"

definition start_serving ::
  "(string \<times> bound_member) list \<Rightarrow> world \<Rightarrow> sd_bus \<Rightarrow> string \<Rightarrow> (error + pyval) \<times> world" where
  "start_serving getmembers_self w bus object_path =
     (let w0 = w\<lparr>inst := (inst w)\<lparr>attached_bus := Some bus,
                                    serving_object_path := Some (Some object_path)\<rparr>\<rparr>
      in case collect_members getmembers_self [] of
           Inl e \<Rightarrow> (Inl e, w0)
         | Inr interface_map \<Rightarrow> register_interfaces bus object_path interface_map w0)"

text \<open>
  The descriptor fields every kind of member carries, read through its bound member.
\<close>

definition member_serving_enabled :: "bound_member \<Rightarrow> bool" where
  "member_serving_enabled v =
     (case v of
        MethodBinded m \<Rightarrow> serving_enabled m
      | PropertyBinded p \<Rightarrow> serving_enabled p
      | SignalBinded sg \<Rightarrow> serving_enabled sg
      | _ \<Rightarrow> False)"

definition member_interface_name :: "bound_member \<Rightarrow> string option" where
  "member_interface_name v =
     (case v of
        MethodBinded m \<Rightarrow> interface_name m
      | PropertyBinded p \<Rightarrow> interface_name p
      | SignalBinded sg \<Rightarrow> interface_name sg
      | _ \<Rightarrow> None)"

definition is_method_or_property :: "bound_member \<Rightarrow> bool" where
  "is_method_or_property v =
     (case v of MethodBinded m \<Rightarrow> True | PropertyBinded p \<Rightarrow> True | _ \<Rightarrow> False)"

text \<open>
  The specification's reading of \<^verbatim>\<open>start_serving\<close>: the members that are served are
  those with serving enabled and a non-null interface name; one registration is made
  for each of their interface names, holding their entries.
\<close>

definition spec_served :: "string \<times> bound_member \<Rightarrow> bool" where
  "spec_served km = (member_serving_enabled (snd km) \<and> member_interface_name (snd km) \<noteq> None)"

text \<open>
  Example members: a method declared in a class that names no interface (serving
  enabled, interface name null), and a writable property.
\<close>

definition orphan_method :: dbus_method where
  "orphan_method = example_method\<lparr>interface_name := None, method_name := ''Orphan''\<rparr>"

definition volume_property :: dbus_property where
  "volume_property =
     \<lparr>interface_name = Some ''org.example'', serving_enabled = True,
      property_name = ''Volume'', property_signature = ''i'',
      property_get = (\<lambda>self. (Inr (PInt 3), self)),
      property_set = Some (\<lambda>self v. (Inr PNone, self\<lparr>user_attrs := [(''volume'', v)]\<rparr>)),
      property_flags = 0\<rparr>"

definition ping_method :: dbus_method where
  "ping_method =
     example_method\<lparr>interface_name := Some ''org.freedesktop.DBus.Peer'',
                    serving_enabled := False, method_name := ''Ping''\<rparr>"

definition dict_get :: "(string \<times> 'a list) list \<Rightarrow> string \<Rightarrow> 'a list" where
  "dict_get d k = (case map_of d k of None \<Rightarrow> [] | Some l \<Rightarrow> l)"

definition served_by_code :: "string \<times> bound_member \<Rightarrow> bool" where
  "served_by_code km = (is_method_or_property (snd km) \<and> member_serving_enabled (snd km))"

text \<open>
  A member at which one of the two assertions of the first loop fails: a descriptor
  object met unbound, or a method or property with serving enabled and no interface
  name.
\<close>

definition fails_assertion :: "string \<times> bound_member \<Rightarrow> bool" where
  "fails_assertion km =
     (snd km = Descriptor \<or> (served_by_code km \<and> member_interface_name (snd km) = None))"

definition example_members :: "(string \<times> bound_member) list" where
  "example_members =
     [(''changed'', SignalBinded changed_signal),
      (''example'', MethodBinded example_method),
      (''ping'', MethodBinded ping_method),
      (''version'', PropertyBinded readonly_property),
      (''volume'', PropertyBinded volume_property)]"

definition orphan_members :: "(string \<times> bound_member) list" where
  "orphan_members =
     [(''example'', MethodBinded example_method),
      (''orphan'', MethodBinded orphan_method)]"

text \<open>
  What the first loop has made of the members \<open>ms\<close> when it started from the map
  \<open>acc\<close> and ended with \<open>im\<close>: the keys stay distinct, the new keys are the interface
  names of the members the code serves, and each list gained exactly those members.
\<close>

definition grouped ::
  "(string \<times> (string \<times> bound_member) list) list \<Rightarrow> (string \<times> bound_member) list
     \<Rightarrow> (string \<times> (string \<times> bound_member) list) list \<Rightarrow> bool" where
  "grouped acc ms im =
     ((distinct (map fst acc) \<longrightarrow> distinct (map fst im))
      \<and> set (map fst im) = set (map fst acc)
           \<union> {n. \<exists>km \<in> set ms. served_by_code km \<and> member_interface_name (snd km) = Some n}
      \<and> (\<forall>n. set (dict_get im n) = set (dict_get acc n)
           \<union> {km \<in> set ms. served_by_code km \<and> member_interface_name (snd km) = Some n}))"

section \<open>Descriptor objects and class construction\<close>

text \<open>
  Descriptors are objects shared by a class, its subclasses and all their instances,
  and \<^verbatim>\<open>DbusInterfaceMeta.__new__\<close> and \<^verbatim>\<open>DbusProperty.setter\<close> assign to their fields. The
  heap of descriptor objects is a list; an object's address is its index, and a new
  object is appended.
\<close>

datatype descriptor =
    MethodD dbus_method
  | PropertyD dbus_property
  | SignalD dbus_signal

type_synonym descriptor_heap = "descriptor list"

definition heap_lookup :: "descriptor_heap \<Rightarrow> nat \<Rightarrow> descriptor option" where
  "heap_lookup h a = (if a < length h then Some (h ! a) else None)"

text \<open>
  A value in a class body's namespace: a plain function, a descriptor object, the
  override marker \<^verbatim>\<open>DbusOverload\<close> around a function, or anything else.
\<close>

datatype ns_value =
    NsFunction pyfunc
  | NsDescriptor nat
  | NsOverload pyfunc
  | NsOther pyval

text \<open>
  A class object, as far as the metaclass reads one: its own \<^verbatim>\<open>__dict__\<close>, whether
  \<^verbatim>\<open>issubclass(cls, DbusInterfaceBase)\<close> holds, and the three entries the metaclass adds
  to every namespace. \<^verbatim>\<open>base._dbus_declared_interfaces\<close> finds the entry of \<^verbatim>\<open>base\<close>
  itself, since every class made by the metaclass has one.
\<close>

record dbus_class =
  class_name :: string
  class_dict :: "(string \<times> ns_value) list"
  subclass_of_base :: bool
  dbus_declared_interfaces :: "string list"
  dbus_interface_name :: "string option"
  dbus_serving_enabled :: bool

text \<open>
  \<^verbatim>\<open>value.interface_name = interface_name; value.serving_enabled = serving_enabled\<close>.
\<close>

definition stamp :: "string option \<Rightarrow> bool \<Rightarrow> descriptor \<Rightarrow> descriptor" where
  "stamp iname enabled d =
     (case d of
        MethodD m \<Rightarrow> MethodD (m\<lparr>interface_name := iname, serving_enabled := enabled\<rparr>)
      | PropertyD p \<Rightarrow> PropertyD (p\<lparr>interface_name := iname, serving_enabled := enabled\<rparr>)
      | SignalD sg \<Rightarrow> SignalD (sg\<lparr>interface_name := iname, serving_enabled := enabled\<rparr>))"

text \<open>
  The first loop of \<^verbatim>\<open>__new__\<close>, over \<^verbatim>\<open>namespace.items()\<close>: the heap after the stamping
  and the set \<^verbatim>\<open>declared_interfaces\<close>.
\<close>

fun stamp_namespace ::
  "(string \<times> ns_value) list \<Rightarrow> string option \<Rightarrow> bool \<Rightarrow> descriptor_heap \<Rightarrow> string list
     \<Rightarrow> descriptor_heap \<times> string list" where
  "stamp_namespace [] iname enabled h declared = (h, declared)"
| "stamp_namespace ((key, NsDescriptor a) # rest) iname enabled h declared =
     stamp_namespace rest iname enabled (h[a := stamp iname enabled (h ! a)])
       (List.insert key declared)"
| "stamp_namespace ((key, _) # rest) iname enabled h declared =
     stamp_namespace rest iname enabled h declared"

text \<open>
  \<^verbatim>\<open>for base in bases: try: sc_dbus_def = base.__dict__[key]; break\<close>: the entry of the
  first base whose own dictionary has the key. When no base has it the variable keeps
  what it held before.
\<close>

fun find_in_bases :: "dbus_class list \<Rightarrow> string \<Rightarrow> ns_value option \<Rightarrow> ns_value option" where
  "find_in_bases [] key sc_dbus_def = sc_dbus_def"
| "find_in_bases (base # bases) key sc_dbus_def =
     (case map_of (class_dict base) key of
        Some v \<Rightarrow> Some v
      | None \<Rightarrow> find_in_bases bases key sc_dbus_def)"

definition dict_set :: "(string \<times> 'a) list \<Rightarrow> string \<Rightarrow> 'a \<Rightarrow> (string \<times> 'a) list" where
  "dict_set d k v = (if k \<in> fst ` set d then map (\<lambda>(k', v'). if k' = k then (k', v) else (k', v')) d
                     else d @ [(k, v)])"

text \<open>
  The loop \<^verbatim>\<open>for key in super_declared_interfaces & namespace.keys()\<close>. The keys are
  visited in the order they have in the namespace (the order of a Python set is not
  specified). The state of the loop is the namespace, \<^verbatim>\<open>declared_interfaces\<close>, the heap
  and the variable \<^verbatim>\<open>sc_dbus_def\<close>, which is not reset between iterations.
  \<^verbatim>\<open>deepcopy\<close> puts the copy at a new address (the function objects inside are shared, not
  copied); an address with no object behind it is no \<^verbatim>\<open>DbusSomething\<close>.
\<close>

fun override_loop ::
  "string list \<Rightarrow> dbus_class list \<Rightarrow> (string \<times> ns_value) list \<Rightarrow> string list \<Rightarrow> descriptor_heap
     \<Rightarrow> ns_value option
     \<Rightarrow> (error + (string \<times> ns_value) list \<times> string list) \<times> descriptor_heap" where
  "override_loop [] bases namespace declared h sc_dbus_def = (Inr (namespace, declared), h)"
| "override_loop (key # keys) bases namespace declared h sc_dbus_def =
     (case map_of namespace key of
        Some (NsOverload original) \<Rightarrow>
          (case find_in_bases bases key sc_dbus_def of
             None \<Rightarrow> (Inl (UnboundLocalError ''sc_dbus_def''), h)
           | Some (NsDescriptor a) \<Rightarrow>
               (case heap_lookup h a of
                  None \<Rightarrow> (Inl AssertionError, h)
                | Some (MethodD m) \<Rightarrow>
                    override_loop keys bases
                      (dict_set namespace key (NsDescriptor (length h)))
                      (List.insert key declared)
                      (h @ [MethodD (m\<lparr>original_method := original\<rparr>)])
                      (Some (NsDescriptor a))
                | Some d \<Rightarrow> (Inl (TypeError []), h @ [d]))
           | Some _ \<Rightarrow> (Inl AssertionError, h))
      | _ \<Rightarrow>
          (Inl (TypeError
             ''Attempted to overload dbus defenition without using @dbus_overload decorator''), h))"

text \<open>
  \<^verbatim>\<open>DbusInterfaceMeta.__new__\<close>. It returns the new class, or the error, together with
  the heap: the stamping of the first loop has happened even when a later step raises.
  The new class is a subclass of \<^verbatim>\<open>DbusInterfaceBase\<close> when one of its bases is.
\<close>

definition meta_new ::
  "string \<Rightarrow> dbus_class list \<Rightarrow> (string \<times> ns_value) list \<Rightarrow> string option \<Rightarrow> bool \<Rightarrow> descriptor_heap
     \<Rightarrow> (error + dbus_class) \<times> descriptor_heap" where
  "meta_new name bases namespace iname enabled h =
     (case stamp_namespace namespace iname enabled h [] of
        (h1, declared_interfaces) \<Rightarrow>
          (let super_declared_interfaces =
                 concat (map dbus_declared_interfaces (filter subclass_of_base bases))
           in case override_loop
                     (filter (\<lambda>key. key \<in> set super_declared_interfaces) (map fst namespace))
                     bases namespace declared_interfaces h1 None of
                (Inl e, h2) \<Rightarrow> (Inl e, h2)
              | (Inr (namespace', declared'), h2) \<Rightarrow>
                  (Inr \<lparr>class_name = name, class_dict = namespace',
                        subclass_of_base = (\<exists>base \<in> set bases. subclass_of_base base),
                        dbus_declared_interfaces = declared',
                        dbus_interface_name = iname,
                        dbus_serving_enabled = enabled\<rparr>, h2)))"

text \<open>
  \<^verbatim>\<open>DbusProperty.setter\<close>: \<^verbatim>\<open>self.property_set = new_set_function\<close>, on the descriptor
  object at address \<open>a\<close>. On an object of another kind the assignment adds an attribute
  nothing reads.
\<close>

definition setter ::
  "nat \<Rightarrow> (dbus_object \<Rightarrow> pyval \<Rightarrow> (error + pyval) \<times> dbus_object) \<Rightarrow> descriptor_heap \<Rightarrow> descriptor_heap" where
  "setter a new_set_function h =
     (case heap_lookup h a of
        Some (PropertyD p) \<Rightarrow> h[a := PropertyD (p\<lparr>property_set := Some new_set_function\<rparr>)]
      | _ \<Rightarrow> h)"

section \<open>The classes of the library and of its test\<close>

text \<open>
  The body of a method that raises \<^verbatim>\<open>NotImplementedError\<close>, and the descriptors made by
  the decorators in the class bodies of \<^verbatim>\<open>DbusPeerInterface\<close>, \<^verbatim>\<open>DbusIntrospectable\<close> and
  the test's \<^verbatim>\<open>GoodDbusInterface\<close>, in the order they are made, before any class
  construction has stamped them.
\<close>

definition not_implemented :: "string \<Rightarrow> pyfunc" where
  "not_implemented name =
     \<lparr>fn_name = name, fn_args = [''self''], fn_defaults = [],
      fn_body = (\<lambda>self args kw. (Inl (UserError ''NotImplementedError''), self))\<rparr>"

definition decorated_method :: "string \<Rightarrow> string \<Rightarrow> descriptor" where
  "decorated_method python_name wire_name =
     MethodD \<lparr>interface_name = None, serving_enabled = True,
              original_method = not_implemented python_name,
              args_spec_args = [''self''], args_names = [], num_of_args = 0,
              args_defaults = [], default_args_start_at = 0,
              method_name = wire_name,
              input_signature = [], input_args_names = [],
              result_signature = [], result_args_names = [],
              method_flags = 0\<rparr>"

definition test_property_descriptor :: descriptor where
  "test_property_descriptor =
     PropertyD \<lparr>interface_name = None, serving_enabled = True,
                property_name = ''TestProperty'', property_signature = ''s'',
                property_get = (\<lambda>self. (Inr (PStr ''test''), self)),
                property_set = None, property_flags = 0\<rparr>"

definition library_heap :: descriptor_heap where
  "library_heap =
     [decorated_method ''ping'' ''Ping'',
      decorated_method ''get_machine_id'' ''GetMachineId'',
      decorated_method ''introspect'' ''Introspect'',
      decorated_method ''test_method'' ''TestMethod'',
      test_property_descriptor]"

definition DbusInterfaceBase_class :: dbus_class where
  "DbusInterfaceBase_class =
     \<lparr>class_name = ''DbusInterfaceBase'', class_dict = [], subclass_of_base = True,
      dbus_declared_interfaces = [], dbus_interface_name = None,
      dbus_serving_enabled = True\<rparr>"

definition DbusPeerInterface_class :: dbus_class where
  "DbusPeerInterface_class =
     \<lparr>class_name = ''DbusPeerInterface'',
      class_dict = [(''ping'', NsDescriptor 0), (''get_machine_id'', NsDescriptor 1)],
      subclass_of_base = True,
      dbus_declared_interfaces = [''get_machine_id'', ''ping''],
      dbus_interface_name = Some ''org.freedesktop.DBus.Peer'',
      dbus_serving_enabled = False\<rparr>"

definition DbusIntrospectable_class :: dbus_class where
  "DbusIntrospectable_class =
     \<lparr>class_name = ''DbusIntrospectable'',
      class_dict = [(''introspect'', NsDescriptor 2)],
      subclass_of_base = True,
      dbus_declared_interfaces = [''introspect''],
      dbus_interface_name = Some ''org.freedesktop.DBus.Introspectable'',
      dbus_serving_enabled = False\<rparr>"

definition DbusInterfaceCommon_class :: dbus_class where
  "DbusInterfaceCommon_class =
     \<lparr>class_name = ''DbusInterfaceCommon'', class_dict = [], subclass_of_base = True,
      dbus_declared_interfaces = [], dbus_interface_name = None,
      dbus_serving_enabled = True\<rparr>"

definition GoodDbusInterface_class :: dbus_class where
  "GoodDbusInterface_class =
     \<lparr>class_name = ''GoodDbusInterface'',
      class_dict = [(''test_method'', NsDescriptor 3), (''test_property'', NsDescriptor 4)],
      subclass_of_base = True,
      dbus_declared_interfaces = [''test_property'', ''test_method''],
      dbus_interface_name = None,
      dbus_serving_enabled = True\<rparr>"

text \<open>The heap after the three library classes were constructed.\<close>

definition stamped_heap :: descriptor_heap where
  "stamped_heap =
     [stamp (Some ''org.freedesktop.DBus.Peer'') False (decorated_method ''ping'' ''Ping''),
      stamp (Some ''org.freedesktop.DBus.Peer'') False
        (decorated_method ''get_machine_id'' ''GetMachineId''),
      stamp (Some ''org.freedesktop.DBus.Introspectable'') False
        (decorated_method ''introspect'' ''Introspect''),
      decorated_method ''test_method'' ''TestMethod'',
      test_property_descriptor]"

text \<open>A plain function \<^verbatim>\<open>def ping(self): return\<close>.\<close>

definition plain_function :: "string \<Rightarrow> pyfunc" where
  "plain_function name =
     \<lparr>fn_name = name, fn_args = [''self''], fn_defaults = [],
      fn_body = (\<lambda>self args kw. (Inr PNone, self))\<rparr>"

section \<open>Operations on a system of descriptors and one instance\<close>

text \<open>
  Everything that can be done once the classes exist: the operations of the bound
  members of an instance, each reading its descriptor from the heap when it runs;
  serving and connecting the instance; collecting a subscriber queue; and the two
  operations that assign to descriptor fields, \<^verbatim>\<open>DbusProperty.setter\<close> and the
  construction of a further class. An operation named for a descriptor of another
  kind than the address holds does not exist and changes nothing.
\<close>

record system =
  descriptors :: descriptor_heap
  the_world :: world

datatype operation =
    OpCall nat "pyval list" kwargs
  | OpCallFromDbus nat received_message
  | OpGetSync nat
  | OpSetSync nat pyval
  | OpGetAsync nat
  | OpSetAsync nat pyval
  | OpEmit nat pyval
  | OpSubscribe nat
  | OpCollect nat
  | OpStartServing "(string \<times> nat) list" sd_bus string
  | OpConnect sd_bus string string
  | OpSetter nat "dbus_object \<Rightarrow> pyval \<Rightarrow> (error + pyval) \<times> dbus_object"
  | OpNewClass string "dbus_class list" "(string \<times> ns_value) list" "string option" bool

text \<open>\<^verbatim>\<open>__get__\<close>: the bound member of the descriptor at an address.\<close>

definition bind_member :: "descriptor_heap \<Rightarrow> nat \<Rightarrow> bound_member" where
  "bind_member h a =
     (case heap_lookup h a of
        Some (MethodD m) \<Rightarrow> MethodBinded m
      | Some (PropertyD p) \<Rightarrow> PropertyBinded p
      | Some (SignalD sg) \<Rightarrow> SignalBinded sg
      | None \<Rightarrow> OtherValue)"

fun step :: "system \<Rightarrow> operation \<Rightarrow> system" where
  "step s (OpCall a args kw) =
     (case heap_lookup (descriptors s) a of
        Some (MethodD m) \<Rightarrow> s\<lparr>the_world := snd (method_call m (the_world s) args kw)\<rparr>
      | _ \<Rightarrow> s)"
| "step s (OpCallFromDbus a request) =
     (case heap_lookup (descriptors s) a of
        Some (MethodD m) \<Rightarrow> s\<lparr>the_world := snd (call_from_dbus m (the_world s) request)\<rparr>
      | _ \<Rightarrow> s)"
| "step s (OpGetSync a) =
     (case heap_lookup (descriptors s) a of
        Some (PropertyD p) \<Rightarrow> s\<lparr>the_world := snd (get_sync p (the_world s))\<rparr>
      | _ \<Rightarrow> s)"
| "step s (OpSetSync a v) =
     (case heap_lookup (descriptors s) a of
        Some (PropertyD p) \<Rightarrow> s\<lparr>the_world := snd (set_sync p (the_world s) v)\<rparr>
      | _ \<Rightarrow> s)"
| "step s (OpGetAsync a) =
     (case heap_lookup (descriptors s) a of
        Some (PropertyD p) \<Rightarrow> s\<lparr>the_world := snd (get_async p (the_world s))\<rparr>
      | _ \<Rightarrow> s)"
| "step s (OpSetAsync a v) =
     (case heap_lookup (descriptors s) a of
        Some (PropertyD p) \<Rightarrow> s\<lparr>the_world := snd (set_async p (the_world s) v)\<rparr>
      | _ \<Rightarrow> s)"
| "step s (OpEmit a v) =
     (case heap_lookup (descriptors s) a of
        Some (SignalD sg) \<Rightarrow> s\<lparr>the_world := snd (emit a sg (the_world s) v)\<rparr>
      | _ \<Rightarrow> s)"
| "step s (OpSubscribe a) =
     (case heap_lookup (descriptors s) a of
        Some (SignalD sg) \<Rightarrow> s\<lparr>the_world := snd (aiter_start a sg (the_world s))\<rparr>
      | _ \<Rightarrow> s)"
| "step s (OpCollect q) = s\<lparr>the_world := collect_queue q (the_world s)\<rparr>"
| "step s (OpStartServing keys bus object_path) =
     s\<lparr>the_world :=
         snd (start_serving (map (\<lambda>(key, a). (key, bind_member (descriptors s) a)) keys)
                (the_world s) bus object_path)\<rparr>"
| "step s (OpConnect bus service_name object_path) =
     s\<lparr>the_world :=
         (the_world s)\<lparr>inst := connect (inst (the_world s)) bus service_name object_path\<rparr>\<rparr>"
| "step s (OpSetter a new_set_function) =
     s\<lparr>descriptors := setter a new_set_function (descriptors s)\<rparr>"
| "step s (OpNewClass name bases namespace iname enabled) =
     s\<lparr>descriptors := snd (meta_new name bases namespace iname enabled (descriptors s))\<rparr>"

definition assigns_descriptor_fields :: "operation \<Rightarrow> bool" where
  "assigns_descriptor_fields op =
     (case op of
        OpSetter a f \<Rightarrow> True
      | OpNewClass name bases namespace iname enabled \<Rightarrow> True
      | _ \<Rightarrow> False)"

text \<open>
  A system with a read-only property, a signal and a method, and a setter function
  \<^verbatim>\<open>def store_volume(self, v): self.volume = v\<close>.
\<close>

definition store_volume :: "dbus_object \<Rightarrow> pyval \<Rightarrow> (error + pyval) \<times> dbus_object" where
  "store_volume self v = (Inr PNone, self\<lparr>user_attrs := [(''volume'', v)]\<rparr>)"

definition example_system :: system where
  "example_system =
     \<lparr>descriptors = [PropertyD readonly_property, SignalD changed_signal, MethodD example_method],
      the_world = local_world\<rparr>"

section \<open>Proofs: name mapper\<close>

lemma is_lower_not_underscore: "is_lower c \<Longrightarrow> c \<noteq> CHR ''_''"
  by (auto simp: is_lower_def)

lemma is_lower_upper: "is_lower c \<Longrightarrow> is_upper (upper c)"
  unfolding is_lower_def is_upper_def upper_def by auto

lemma is_upper_not_underscore: "is_upper c \<Longrightarrow> c \<noteq> CHR ''_''"
  by (auto simp: is_upper_def)

lemma convert_rest_plain_word:
  "list_all is_lower w \<Longrightarrow> convert_rest False (w @ r) = w @ convert_rest False r"
  by (induction w) (auto dest: is_lower_not_underscore)

lemma convert_rest_after_underscore:
  assumes "lower_word w"
  shows "convert_rest True (w @ r) = capitalize w @ convert_rest False r"
proof (cases w)
  case Nil
  with assms show ?thesis by (simp add: lower_word_def)
next
  case (Cons c cs)
  with assms have c: "c \<noteq> CHR ''_''" and cs: "list_all is_lower cs"
    by (auto simp: lower_word_def dest: is_lower_not_underscore)
  show ?thesis
    using c convert_rest_plain_word [OF cs, of r] by (simp add: Cons capitalize_def)
qed

lemma convert_rest_words:
  "ws \<noteq> [] \<Longrightarrow> list_all lower_word ws \<Longrightarrow>
   convert_rest True (join_underscore ws) = camel_case ws"
proof (induction ws rule: join_underscore.induct)
  case 1
  then show ?case by simp
next
  case (2 w)
  then show ?case
    using convert_rest_after_underscore [of w "[]"] by (simp add: camel_case_def)
next
  case (3 w v vs)
  then have "convert_rest True (join_underscore (v # vs)) = camel_case (v # vs)"
    by simp
  moreover have "lower_word w" using 3 by simp
  ultimately show ?case
    using convert_rest_after_underscore [of w "CHR ''_'' # join_underscore (v # vs)"]
    by (simp add: camel_case_def)
qed

lemma converter_first_word:
  assumes "lower_word w"
  shows "method_name_converter (w @ r) = Inr (capitalize w @ convert_rest False r)"
proof (cases w)
  case Nil
  with assms show ?thesis by (simp add: lower_word_def)
next
  case (Cons c cs)
  with assms have cs: "list_all is_lower cs"
    by (simp add: lower_word_def)
  show ?thesis
    using convert_rest_plain_word [OF cs, of r]
    by (simp add: Cons method_name_converter_def capitalize_def)
qed

lemma converter_words:
  assumes "ws \<noteq> []" and "list_all lower_word ws"
  shows "method_name_converter (join_underscore ws) = Inr (camel_case ws)"
proof (cases ws)
  case Nil
  with assms show ?thesis by simp
next
  case (Cons w vs)
  with assms have w: "lower_word w" and vs: "list_all lower_word vs"
    by simp_all
  show ?thesis
  proof (cases vs)
    case Nil
    then show ?thesis
      using converter_first_word [OF w, of "[]"] Cons by (simp add: camel_case_def)
  next
    case (Cons v us)
    then have "convert_rest True (join_underscore vs) = camel_case vs"
      using convert_rest_words [of vs] vs by simp
    then show ?thesis
      using converter_first_word [OF w, of "CHR ''_'' # join_underscore vs"] Cons \<open>ws = w # vs\<close>
      by (simp add: camel_case_def)
  qed
qed

lemma capitalize_no_underscore:
  assumes "lower_word w"
  shows "CHR ''_'' \<notin> set (capitalize w)"
proof (cases w)
  case Nil
  then show ?thesis by (simp add: capitalize_def)
next
  case (Cons c cs)
  with assms have c: "is_lower c" and cs: "list_all is_lower cs"
    by (simp_all add: lower_word_def)
  have "upper c \<noteq> CHR ''_''"
    using is_lower_upper [OF c] is_upper_not_underscore by blast
  moreover have "CHR ''_'' \<notin> set cs"
    using cs is_lower_not_underscore by (auto simp: list_all_iff)
  ultimately show ?thesis by (auto simp: Cons capitalize_def)
qed

lemma camel_case_no_underscore:
  "list_all lower_word ws \<Longrightarrow> CHR ''_'' \<notin> set (camel_case ws)"
  by (induction ws) (auto simp: camel_case_def dest: capitalize_no_underscore)

lemma camel_case_starts_upper:
  assumes "ws \<noteq> []" and "list_all lower_word ws"
  shows "camel_case ws \<noteq> [] \<and> is_upper (hd (camel_case ws))"
proof -
  from assms obtain w vs where ws: "ws = w # vs" and w: "lower_word w"
    by (cases ws) auto
  from w obtain c cs where wc: "w = c # cs" and c: "is_lower c"
    by (cases w) (auto simp: lower_word_def)
  show ?thesis
    using is_lower_upper [OF c] by (simp add: ws wc camel_case_def capitalize_def)
qed

text \<open>
  C6. For every non-empty identifier made of lowercase words separated by underscores,
  the name mapper returns the words with each first character capitalised and the
  underscores deleted, every other character unchanged; the output starts with an
  uppercase letter and contains no underscore.
\<close>

theorem name_mapper_lowercase_identifier:
  assumes "ws \<noteq> []" and "list_all lower_word ws"
  shows "method_name_converter (join_underscore ws) = Inr (camel_case ws)
         \<and> camel_case ws \<noteq> []
         \<and> is_upper (hd (camel_case ws))
         \<and> CHR ''_'' \<notin> set (camel_case ws)"
  using assms converter_words camel_case_starts_upper camel_case_no_underscore
  by blast

theorem name_mapper_lowercase_identifier_witness:
  "method_name_converter ''get_machine_id'' = Inr ''GetMachineId''
   \<and> is_upper (hd ''GetMachineId'')
   \<and> CHR ''_'' \<notin> set ''GetMachineId''"
proof -
  have ne: "[''get'', ''machine'', ''id''] \<noteq> []" by simp
  have lw: "list_all lower_word [''get'', ''machine'', ''id'']"
    by (simp add: lower_word_def is_lower_def)
  have cc: "camel_case [''get'', ''machine'', ''id''] = ''GetMachineId''"
    by code_simp
  have j: "join_underscore [''get'', ''machine'', ''id''] = ''get_machine_id''"
    by simp
  show ?thesis
    using name_mapper_lowercase_identifier [OF ne lw, unfolded cc j] by blast
qed

section \<open>Proofs: bound method\<close>

lemma DbusMethod_init_wf:
  assumes "DbusMethod_init f name_opt in_sig res_sig res_names flags = Inr m"
    and "length (fn_defaults f) \<le> length (tl (fn_args f))"
  shows "wf_method m"
  using assms
  by (auto simp: DbusMethod_init_def wf_method_def split: sum.splits option.splits)

lemma example_method_init:
  "DbusMethod_init example_function None ''iiii'' ''(iiii)'' [] 0
     = Inr (example_method\<lparr>interface_name := None\<rparr>)"
proof -
  have "method_name_converter ''example'' = Inr ''Example''"
    by code_simp
  then show ?thesis
    by (simp add: DbusMethod_init_def example_function_def example_method_def)
qed






lemma example_methods_init:
  "DbusMethod_init (original_method apply_method) None ''si'' [] [] 0
     = Inr (apply_method\<lparr>interface_name := None\<rparr>)"
  "DbusMethod_init (original_method receiver_default_method) None ''i'' [] [] 0
     = Inr (receiver_default_method\<lparr>interface_name := None\<rparr>)"
  "DbusMethod_init (original_method lookup_method) None ''ss'' ''s'' [] 0
     = Inr (lookup_method\<lparr>interface_name := None\<rparr>)"
proof -
  have "method_name_converter ''apply'' = Inr ''Apply''"
    and "method_name_converter ''odd'' = Inr ''Odd''"
    and "method_name_converter ''lookup'' = Inr ''Lookup''"
    by code_simp+
  then show
    "DbusMethod_init (original_method apply_method) None ''si'' [] [] 0
       = Inr (apply_method\<lparr>interface_name := None\<rparr>)"
    "DbusMethod_init (original_method receiver_default_method) None ''i'' [] [] 0
       = Inr (receiver_default_method\<lparr>interface_name := None\<rparr>)"
    "DbusMethod_init (original_method lookup_method) None ''ss'' ''s'' [] 0
       = Inr (lookup_method\<lparr>interface_name := None\<rparr>)"
    by (simp_all add: DbusMethod_init_def apply_method_def receiver_default_method_def
                      lookup_method_def)
qed






section \<open>Proofs: inbound dispatch\<close>

lemma call_from_dbus_splat:
  "call_from_dbus m w req =
     (case fn_body (original_method m) (inst w) (splat (rcv_contents req)) [] of
        (Inl e, self') \<Rightarrow> (Inl e, w\<lparr>inst := self'\<rparr>)
      | (Inr reply_data, self') \<Rightarrow>
          (Inr PNone,
           w\<lparr>inst := self',
             bus_log := bus_log w @
               [MessageSent (case reply_data of
                               PTuple ys \<Rightarrow> append_data (create_reply req) (result_signature m) ys
                             | PNone \<Rightarrow> create_reply req
                             | _ \<Rightarrow> append_data (create_reply req) (result_signature m) [reply_data])]\<rparr>))"
  by (cases "rcv_contents req")
     (simp_all add: call_from_dbus_def splat_def Let_def split: prod.splits sum.splits)

lemma call_from_dbus_returns:
  assumes "fn_body (original_method m) (inst w) (splat (rcv_contents req)) [] = (Inr r, self')"
  shows "fst (call_from_dbus m w req) = Inr PNone
         \<and> (\<exists>reply. bus_log (snd (call_from_dbus m w req)) = bus_log w @ [MessageSent reply]
                    \<and> msg_kind reply = ReplyMessage)"
  using assms
  by (cases r) (simp_all add: call_from_dbus_splat create_reply_def append_data_def)

text \<open>
  C4, as the code has it. \<^verbatim>\<open>_call_from_dbus\<close> has no handler: an error raised by the
  local method implementation leaves the dispatch entry point as that same error, and
  no reply of any kind has been sent when it does.
\<close>

theorem call_from_dbus_error_propagates:
  assumes "fst (fn_body (original_method m) (inst w) (splat (rcv_contents req)) []) = Inl e"
  shows "fst (call_from_dbus m w req) = Inl e
         \<and> bus_log (snd (call_from_dbus m w req)) = bus_log w"
proof -
  obtain r self' where b: "fn_body (original_method m) (inst w) (splat (rcv_contents req)) [] = (r, self')"
    by (cases "fn_body (original_method m) (inst w) (splat (rcv_contents req)) []") blast
  with assms have "r = Inl e" by simp
  with b show ?thesis by (simp add: call_from_dbus_splat)
qed

theorem call_from_dbus_error_propagates_witness:
  "fst (call_from_dbus failing_method local_world fail_request) = Inl (UserError ''boom'')
   \<and> bus_log (snd (call_from_dbus failing_method local_world fail_request)) = []"
proof -
  have b: "fst (fn_body (original_method failing_method) (inst local_world)
                  (splat (rcv_contents fail_request)) []) = Inl (UserError ''boom'')"
    by (simp add: failing_method_def)
  have l: "bus_log local_world = []"
    by (simp add: local_world_def)
  show ?thesis
    using call_from_dbus_error_propagates [OF b] by (simp add: l)
qed

theorem call_from_dbus_counterexample:
  "call_from_dbus failing_method local_world fail_request
     = (Inl (UserError ''boom''), local_world)"
  by (simp add: call_from_dbus_def failing_method_def fail_request_def local_world_def)

section \<open>Proofs: bound property\<close>

lemma proxy_world_inst:
  "inst proxy_world = new_connect 1 ''org.example.Service'' ''/org/example''"
  by (simp add: proxy_world_def)

text \<open>
  C7. A set on a property whose descriptor has no setter raises
  \<^verbatim>\<open>ValueError('Property has no setter')\<close>, the library's no-setter error, under
  \<^verbatim>\<open>set_sync\<close> in any binding mode and under \<^verbatim>\<open>set_async\<close> on an instance that is not
  proxy-bound; the world, and so the instance, is left as it was.
\<close>

theorem set_without_setter:
  assumes "property_set p = None"
  shows "set_sync p w v = (Inl (ValueError ''Property has no setter''), w)
         \<and> (\<not> is_binded (inst w) \<longrightarrow>
              set_async p w v = (Inl (ValueError ''Property has no setter''), w))"
  using assms by (simp add: set_sync_def set_async_def)

theorem set_without_setter_witness:
  "set_sync readonly_property proxy_world (PStr ''2'')
     = (Inl (ValueError ''Property has no setter''), proxy_world)
   \<and> set_sync readonly_property local_world (PStr ''2'')
     = (Inl (ValueError ''Property has no setter''), local_world)
   \<and> set_async readonly_property local_world (PStr ''2'')
     = (Inl (ValueError ''Property has no setter''), local_world)"
proof -
  have n: "property_set readonly_property = None"
    by (simp add: readonly_property_def)
  have u: "\<not> is_binded (inst local_world)"
    by (simp add: local_world_def DbusInterfaceBase_init_def)
  show ?thesis
    using set_without_setter [OF n, of proxy_world "PStr ''2''"]
          set_without_setter [OF n, of local_world "PStr ''2''"] u
    by simp
qed

section \<open>Proofs: proxy construction\<close>

text \<open>
  C10. \<^verbatim>\<open>new_connect\<close> returns an object in proxy-bound state: \<^verbatim>\<open>is_binded\<close> is true and
  the attached bus, remote service name and remote object path are the arguments. The
  object never ran \<^verbatim>\<open>__init__\<close>: \<^verbatim>\<open>activated_interfaces\<close>, \<^verbatim>\<open>serving_object_path\<close> and
  \<^verbatim>\<open>_local_signal_queues\<close> do not exist on it, so emitting a signal and making a local
  subscriber queue both fail with \<^verbatim>\<open>AttributeError\<close> and change nothing.
\<close>

theorem new_connect_proxy_state:
  "is_binded (new_connect bus service_name object_path)
   \<and> attached_bus (new_connect bus service_name object_path) = Some bus
   \<and> remote_service_name (new_connect bus service_name object_path) = Some service_name
   \<and> remote_object_path (new_connect bus service_name object_path) = Some object_path
   \<and> activated_interfaces (new_connect bus service_name object_path) = None
   \<and> serving_object_path (new_connect bus service_name object_path) = None
   \<and> local_signal_queues (new_connect bus service_name object_path) = None
   \<and> user_attrs (new_connect bus service_name object_path) = []
   \<and> (inst w = new_connect bus service_name object_path \<longrightarrow>
        emit sig_id sg w v = (Inl (AttributeError ''activated_interfaces''), w)
        \<and> get_local_queue sig_id w = (Inl (AttributeError ''_local_signal_queues''), w))"
  by (simp add: new_connect_def connect_def object_new_def emit_def get_local_queue_def)

theorem new_connect_proxy_state_witness:
  "is_binded (inst proxy_world)
   \<and> attached_bus (inst proxy_world) = Some 1
   \<and> activated_interfaces (inst proxy_world) = None
   \<and> emit 0 changed_signal proxy_world (PInt 7)
        = (Inl (AttributeError ''activated_interfaces''), proxy_world)
   \<and> get_local_queue 0 proxy_world
        = (Inl (AttributeError ''_local_signal_queues''), proxy_world)"
  using new_connect_proxy_state [of 1 "''org.example.Service''" "''/org/example''"
          proxy_world 0 changed_signal "PInt 7"]
  by (simp add: proxy_world_inst)

section \<open>Proofs: bound signal\<close>

lemma delivered_Nil: "delivered [] v qs = qs"
  by (rule ext) (simp add: delivered_def split: option.splits)

lemma delivered_Cons:
  assumes "qs r = Some (owner, queued)"
  shows "delivered refs v (qs(r \<mapsto> (owner, queued @ [v]))) = delivered (r # refs) v qs"
  using assms
  by (intro ext) (auto simp: delivered_def replicate_append_same split: option.splits)

lemma put_all_live:
  "\<forall>q \<in> set refs. queues w q \<noteq> None \<Longrightarrow>
   put_all refs v w = (Inr PNone, w\<lparr>queues := delivered refs v (queues w)\<rparr>)"
proof (induction refs arbitrary: w)
  case Nil
  then show ?case by (simp add: delivered_Nil)
next
  case (Cons r refs)
  then obtain owner queued where r: "queues w r = Some (owner, queued)"
    by (cases "queues w r") auto
  let ?w = "w\<lparr>queues := (queues w)(r \<mapsto> (owner, queued @ [v]))\<rparr>"
  have "\<forall>q \<in> set refs. queues ?w q \<noteq> None"
    using Cons.prems by simp
  from Cons.IH [OF this]
  have ih: "put_all refs v ?w = (Inr PNone, ?w\<lparr>queues := delivered refs v (queues ?w)\<rparr>)" .
  have dc: "delivered refs v ((queues w)(r \<mapsto> (owner, queued @ [v])))
              = delivered (r # refs) v (queues w)"
    using delivered_Cons [of "queues w" r owner queued refs v] r by blast
  have "put_all (r # refs) v w = put_all refs v ?w"
    by (simp add: r)
  also have "\<dots> = (Inr PNone, w\<lparr>queues := delivered (r # refs) v (queues w)\<rparr>)"
    unfolding ih by (simp add: dc)
  finally show ?case .
qed

lemma put_all_dead:
  "\<exists>q \<in> set refs. queues w q = None \<Longrightarrow> fst (put_all refs v w) = Inl AssertionError"
proof (induction refs arbitrary: w)
  case Nil
  then show ?case by simp
next
  case (Cons r refs)
  show ?case
  proof (cases "queues w r")
    case None
    then show ?thesis by simp
  next
    case (Some a)
    obtain owner queued where a: "a = (owner, queued)" by (cases a)
    let ?w = "w\<lparr>queues := (queues w)(r \<mapsto> (owner, queued @ [v]))\<rparr>"
    from Cons.prems Some obtain q where q: "q \<in> set refs" "queues w q = None"
      by auto
    then have "q \<noteq> r" using Some by auto
    with q have "\<exists>q \<in> set refs. queues ?w q = None"
      by (intro bexI [of _ q]) simp_all
    from Cons.IH [OF this] show ?thesis by (simp add: Some a)
  qed
qed

lemma emit_message_sends:
  assumes "attached_bus (inst w) = Some bus"
    and "serving_object_path (inst w) = Some (Some path)"
    and "interface_name sg = Some iface"
  shows "emit_message sg w v
           = (Inr PNone, w\<lparr>bus_log := bus_log w @ [MessageSent (signal_message_for sg path iface v)]\<rparr>)"
  using assms
  by (cases v) (simp_all add: emit_message_def signal_message_for_def Let_def)

text \<open>
  C3, as the code has it. When the instance has its attributes from \<^verbatim>\<open>__init__\<close>, every
  reference in the signal's subscriber list is to a live queue, and, in case an
  interface registration is active, the bus and serving path are set and the signal
  has an interface name: \<^verbatim>\<open>emit\<close> sends exactly one signal message if a registration is
  active and none otherwise, and, either way, puts the value at the end of every queue
  in the signal's subscriber list, leaving all other queues as they were.
\<close>

theorem emit_bus_and_local:
  assumes "activated_interfaces (inst w) = Some acts"
    and "local_signal_queues (inst w) = Some d"
    and "acts \<noteq> [] \<longrightarrow> attached_bus (inst w) = Some bus
           \<and> serving_object_path (inst w) = Some (Some path) \<and> interface_name sg = Some iface"
    and "\<forall>q \<in> set (subscribers d sig_id). queues w q \<noteq> None"
  shows "emit sig_id sg w v =
           (Inr PNone,
            w\<lparr>bus_log := bus_log w @
                 (if acts \<noteq> [] then [MessageSent (signal_message_for sg path iface v)] else []),
              queues := delivered (subscribers d sig_id) v (queues w)\<rparr>)"
proof (cases "acts = []")
  case True
  show ?thesis
  proof (cases "d sig_id")
    case None
    then show ?thesis
      using assms True by (simp add: emit_def subscribers_def delivered_Nil)
  next
    case (Some l)
    then have "\<forall>q \<in> set l. queues w q \<noteq> None"
      using assms(4) by (simp add: subscribers_def)
    from put_all_live [OF this, of v] show ?thesis
      using assms True Some by (simp add: emit_def subscribers_def)
  qed
next
  case False
  let ?w = "w\<lparr>bus_log := bus_log w @ [MessageSent (signal_message_for sg path iface v)]\<rparr>"
  have em: "emit_message sg w v = (Inr PNone, ?w)"
    using emit_message_sends assms(3) False by simp
  show ?thesis
  proof (cases "d sig_id")
    case None
    then show ?thesis
      using assms False em by (simp add: emit_def subscribers_def delivered_Nil)
  next
    case (Some l)
    then have "\<forall>q \<in> set l. queues ?w q \<noteq> None"
      using assms(4) by (simp add: subscribers_def)
    from put_all_live [OF this, of v] show ?thesis
      using assms False em Some by (simp add: emit_def subscribers_def)
  qed
qed

lemma subscribed_world_fields:
  "activated_interfaces (inst subscribed_world) = Some []"
  "local_signal_queues (inst subscribed_world) = Some [0 \<mapsto> [0]]"
  "queues subscribed_world = [0 \<mapsto> (0, [])]"
  "bus_log subscribed_world = []"
  by (simp_all add: subscribed_world_def get_local_queue_def local_world_def
                    DbusInterfaceBase_init_def Let_def)

lemma serving_world_fields:
  "activated_interfaces (inst serving_world)
     = Some [[MethodMember ''Example'' ''iiii'' [] ''(iiii)'' [] 0 (CallFromDbus ''example'')]]"
  "local_signal_queues (inst serving_world) = Some [0 \<mapsto> [0]]"
  "attached_bus (inst serving_world) = Some 1"
  "serving_object_path (inst serving_world) = Some (Some ''/org/example'')"
  "queues serving_world = [0 \<mapsto> (0, [])]"
  "bus_log serving_world = []"
  by (simp_all add: serving_world_def subscribed_world_fields)

theorem emit_bus_and_local_witness:
  "fst (emit 0 changed_signal subscribed_world (PInt 7)) = Inr PNone
   \<and> bus_log (snd (emit 0 changed_signal subscribed_world (PInt 7))) = []
   \<and> queues (snd (emit 0 changed_signal subscribed_world (PInt 7))) 0 = Some (0, [PInt 7])
   \<and> fst (emit 0 changed_signal serving_world (PInt 7)) = Inr PNone
   \<and> bus_log (snd (emit 0 changed_signal serving_world (PInt 7)))
       = [MessageSent (signal_message_for changed_signal ''/org/example'' ''org.example'' (PInt 7))]
   \<and> queues (snd (emit 0 changed_signal serving_world (PInt 7))) 0 = Some (0, [PInt 7])"
proof -
  have l1: "\<forall>q \<in> set (subscribers [0 \<mapsto> [0]] 0). queues subscribed_world q \<noteq> None"
    by (simp add: subscribers_def subscribed_world_fields)
  have l2: "\<forall>q \<in> set (subscribers [0 \<mapsto> [0]] 0). queues serving_world q \<noteq> None"
    by (simp add: subscribers_def serving_world_fields)
  have s1: "[] \<noteq> [] \<longrightarrow> attached_bus (inst subscribed_world) = Some 1
              \<and> serving_object_path (inst subscribed_world) = Some (Some ''/org/example'')
              \<and> interface_name changed_signal = Some ''org.example''"
    by simp
  have s2: "[[MethodMember ''Example'' ''iiii'' [] ''(iiii)'' [] 0 (CallFromDbus ''example'')]] \<noteq> []
              \<longrightarrow> attached_bus (inst serving_world) = Some 1
              \<and> serving_object_path (inst serving_world) = Some (Some ''/org/example'')
              \<and> interface_name changed_signal = Some ''org.example''"
    by (simp add: serving_world_fields changed_signal_def)
  have d: "delivered (subscribers [0 \<mapsto> [0]] 0) (PInt 7) [0 \<mapsto> (0, [])] 0 = Some (0, [PInt 7])"
    by (simp add: delivered_def subscribers_def)
  show ?thesis
    using emit_bus_and_local [OF subscribed_world_fields(1) subscribed_world_fields(2) s1 l1,
            where v = "PInt 7"]
          emit_bus_and_local [OF serving_world_fields(1) serving_world_fields(2) s2 l2,
            where v = "PInt 7"]
          d
    by (simp add: subscribed_world_fields serving_world_fields)
qed

theorem emit_counterexample:
  "emit 0 unnamed_signal serving_world (PInt 7) = (Inl AssertionError, serving_world)
   \<and> emit 0 changed_signal dead_reference_world (PInt 7)
       = (Inl AssertionError, dead_reference_world)"
  by (simp add: emit_def emit_message_def serving_world_fields unnamed_signal_def
                dead_reference_world_def subscribed_world_fields)

section \<open>Proofs: the subscriber lists hold live references only\<close>

text \<open>
  From \<^verbatim>\<open>__init__\<close> on, subscribing, collecting a queue (with its cleanup callback) and
  emitting keep every listed weak reference live: the assertion in the loop of
  \<^verbatim>\<open>emit\<close> holds in every state these operations reach.
\<close>

lemma refs_live_frame:
  assumes "inst w' = inst w" and "next_queue w' = next_queue w"
    and "\<And>q. map_option fst (queues w' q) = map_option fst (queues w q)"
    and "refs_live w"
  shows "refs_live w'"
proof -
  have "\<And>q. (queues w' q \<noteq> None) = (queues w q \<noteq> None)"
  proof -
    fix q
    show "(queues w' q \<noteq> None) = (queues w q \<noteq> None)"
      using assms(3) [of q] by (cases "queues w' q"; cases "queues w q") simp_all
  qed
  with assms show ?thesis by (simp add: refs_live_def)
qed

lemma put_all_frame:
  "inst (snd (put_all refs v w)) = inst w
   \<and> next_queue (snd (put_all refs v w)) = next_queue w
   \<and> (\<forall>q. map_option fst (queues (snd (put_all refs v w)) q) = map_option fst (queues w q))"
proof (induction refs arbitrary: w)
  case Nil
  then show ?case by simp
next
  case (Cons r refs)
  show ?case
  proof (cases "queues w r")
    case None
    then show ?thesis by simp
  next
    case (Some a)
    obtain owner queued where a: "a = (owner, queued)" by (cases a)
    let ?w = "w\<lparr>queues := (queues w)(r \<mapsto> (owner, queued @ [v]))\<rparr>"
    have "put_all (r # refs) v w = put_all refs v ?w"
      by (simp add: Some a)
    with Cons.IH [of ?w] show ?thesis
      by (simp add: Some a)
  qed
qed

lemma emit_message_frame:
  "inst (snd (emit_message sg w v)) = inst w
   \<and> next_queue (snd (emit_message sg w v)) = next_queue w
   \<and> queues (snd (emit_message sg w v)) = queues w"
  by (simp add: emit_message_def Let_def split: option.splits)

lemma emit_frame:
  "inst (snd (emit sig_id sg w v)) = inst w
   \<and> next_queue (snd (emit sig_id sg w v)) = next_queue w
   \<and> (\<forall>q. map_option fst (queues (snd (emit sig_id sg w v)) q) = map_option fst (queues w q))"
proof (cases "activated_interfaces (inst w)")
  case None
  then show ?thesis by (simp add: emit_def)
next
  case (Some acts)
  obtain r w' where em: "(if acts \<noteq> [] then emit_message sg w v else (Inr PNone, w)) = (r, w')"
    by (cases "if acts \<noteq> [] then emit_message sg w v else (Inr PNone, w)") blast
  have f: "inst w' = inst w \<and> next_queue w' = next_queue w \<and> queues w' = queues w"
  proof (cases "acts \<noteq> []")
    case True
    with em have "w' = snd (emit_message sg w v)" by simp
    then show ?thesis using emit_message_frame [of sg w v] by simp
  next
    case False
    with em show ?thesis by simp
  qed
  show ?thesis
  proof (cases r)
    case (Inl e)
    then have "emit sig_id sg w v = (Inl e, w')"
      using Some em by (simp add: emit_def)
    then show ?thesis using f by simp
  next
    case (Inr x)
    show ?thesis
    proof (cases "local_signal_queues (inst w')")
      case None
      then have "emit sig_id sg w v = (Inl (AttributeError ''_local_signal_queues''), w')"
        using Some em Inr by (simp add: emit_def)
      then show ?thesis using f by simp
    next
      case d: (Some d)
      show ?thesis
      proof (cases "d sig_id")
        case None
        then have "emit sig_id sg w v = (Inr PNone, w')"
          using Some em Inr d by (simp add: emit_def)
        then show ?thesis using f by simp
      next
        case l: (Some l)
        then have "emit sig_id sg w v = put_all l v w'"
          using Some em Inr d by (simp add: emit_def)
        then show ?thesis using f put_all_frame [of l v w'] by simp
      qed
    qed
  qed
qed

lemma refs_live_emit: "refs_live w \<Longrightarrow> refs_live (snd (emit sig_id sg w v))"
  using emit_frame [of sig_id sg w v] refs_live_frame by blast

lemma refs_live_subscribe:
  assumes "refs_live w"
  shows "refs_live (snd (get_local_queue sig_id w))"
proof (cases "local_signal_queues (inst w)")
  case None
  then show ?thesis using assms by (simp add: get_local_queue_def)
next
  case (Some d)
  have lt: "\<And>q. queues w q \<noteq> None \<Longrightarrow> q < next_queue w"
    using assms unfolding refs_live_def by blast
  have fresh: "queues w (next_queue w) = None"
    using lt [of "next_queue w"] by (cases "queues w (next_queue w)") simp_all
  have old: "\<And>sid l. d sid = Some l \<Longrightarrow>
               distinct l \<and> (\<forall>q \<in> set l. map_option fst (queues w q) = Some sid)"
    using assms Some unfolding refs_live_def by blast
  have notin: "next_queue w \<notin> set l" if "d sid = Some l" for sid l
  proof
    assume "next_queue w \<in> set l"
    with old [OF that] have "map_option fst (queues w (next_queue w)) = Some sid" by blast
    with fresh show False by simp
  qed
  show ?thesis
    unfolding refs_live_def
  proof (intro conjI allI impI)
    fix d' sid l
    assume d': "local_signal_queues (inst (snd (get_local_queue sig_id w))) = Some d'"
      and l: "d' sid = Some l"
    have d'eq: "d' = d(sig_id \<mapsto> (case d sig_id of None \<Rightarrow> [] | Some l \<Rightarrow> l) @ [next_queue w])"
      using d' Some by (simp add: get_local_queue_def Let_def)
    have qs: "queues (snd (get_local_queue sig_id w)) = (queues w)(next_queue w \<mapsto> (sig_id, []))"
      using Some by (simp add: get_local_queue_def Let_def)
    show "distinct l"
      using l old notin unfolding d'eq
      by (cases "sid = sig_id") (auto split: option.splits)
    show "\<forall>q\<in>set l. map_option fst (queues (snd (get_local_queue sig_id w)) q) = Some sid"
      using l old notin unfolding d'eq qs
      by (cases "sid = sig_id") (auto split: option.splits)
  next
    fix q
    assume "queues (snd (get_local_queue sig_id w)) q \<noteq> None"
    then show "q < next_queue (snd (get_local_queue sig_id w))"
      using Some lt [of q]
      by (auto simp: get_local_queue_def Let_def less_Suc_eq split: if_splits)
  qed
qed

lemma refs_live_collect:
  assumes "refs_live w"
  shows "refs_live (collect_queue q w)"
proof (cases "queues w q")
  case None
  then show ?thesis using assms by (simp add: collect_queue_def)
next
  case (Some a)
  obtain owner queued where a: "a = (owner, queued)" by (cases a)
  let ?w = "w\<lparr>queues := (queues w)(q := None)\<rparr>"
  have cq: "collect_queue q w = cleanup_local_queue owner q ?w"
    by (simp add: collect_queue_def Some a)
  have lt: "\<And>q'. queues w q' \<noteq> None \<Longrightarrow> q' < next_queue w"
    using assms unfolding refs_live_def by blast
  have old: "\<And>d sid l. local_signal_queues (inst w) = Some d \<Longrightarrow> d sid = Some l \<Longrightarrow>
               distinct l \<and> (\<forall>q' \<in> set l. map_option fst (queues w q') = Some sid)"
    using assms unfolding refs_live_def by blast
  show ?thesis
  proof (cases "local_signal_queues (inst w)")
    case None
    then have w': "collect_queue q w = ?w"
      by (simp add: cq cleanup_local_queue_def)
    show ?thesis
      unfolding refs_live_def w' using None lt
      by (auto split: if_splits)
  next
    case d: (Some d)
    have other: "q \<notin> set l" if "d sid = Some l" and "sid \<noteq> owner" for sid l
    proof
      assume "q \<in> set l"
      with old [OF d that(1)] have "map_option fst (queues w q) = Some sid" by blast
      with Some a that(2) show False by simp
    qed
    show ?thesis
    proof (cases "d owner")
      case None
      have w': "collect_queue q w = ?w"
        using d None by (simp add: cq cleanup_local_queue_def)
      have nq: "q \<notin> set l" if "d sid = Some l" for sid l
        using other [OF that] that None by (cases "sid = owner") simp_all
      show ?thesis
        unfolding refs_live_def w'
      proof (intro conjI allI impI)
        fix d' sid l
        assume "local_signal_queues (inst ?w) = Some d'" and l: "d' sid = Some l"
        then have l': "d sid = Some l" using d by simp
        show "distinct l" using old [OF d l'] by simp
        show "\<forall>q'\<in>set l. map_option fst (queues ?w q') = Some sid"
          using old [OF d l'] nq [OF l'] by auto
      next
        fix q'
        assume "queues ?w q' \<noteq> None"
        then show "q' < next_queue ?w"
          using lt [of q'] by (auto split: if_splits)
      qed
    next
      case l0: (Some l0)
      have w': "collect_queue q w =
                  ?w\<lparr>inst := (inst w)\<lparr>local_signal_queues := Some (d(owner \<mapsto> remove1 q l0))\<rparr>\<rparr>"
        using d l0 by (simp add: cq cleanup_local_queue_def)
      show ?thesis
        unfolding refs_live_def w'
      proof (intro conjI allI impI)
        fix d' sid l
        assume "local_signal_queues (inst (?w\<lparr>inst := (inst w)\<lparr>local_signal_queues := Some (d(owner \<mapsto> remove1 q l0))\<rparr>\<rparr>)) = Some d'"
          and l: "d' sid = Some l"
        then have d': "d' = d(owner \<mapsto> remove1 q l0)" by simp
        show "distinct l"
          using l old [OF d, of sid l] old [OF d l0] unfolding d'
          by (cases "sid = owner") auto
        show "\<forall>q'\<in>set l. map_option fst (queues (?w\<lparr>inst := (inst w)\<lparr>local_signal_queues := Some (d(owner \<mapsto> remove1 q l0))\<rparr>\<rparr>) q') = Some sid"
        proof (cases "sid = owner")
          case True
          then have "l = remove1 q l0" using l d' by simp
          moreover have "distinct l0" using old [OF d l0] by simp
          ultimately show ?thesis
            using old [OF d l0] True by auto
        next
          case False
          then have "d sid = Some l" using l d' by simp
          then show ?thesis
            using old [OF d, of sid l] other [of sid l] False by auto
        qed
      next
        fix q'
        assume "queues (?w\<lparr>inst := (inst w)\<lparr>local_signal_queues := Some (d(owner \<mapsto> remove1 q l0))\<rparr>\<rparr>) q' \<noteq> None"
        then show "q' < next_queue (?w\<lparr>inst := (inst w)\<lparr>local_signal_queues := Some (d(owner \<mapsto> remove1 q l0))\<rparr>\<rparr>)"
          using lt [of q'] by (auto split: if_splits)
      qed
    qed
  qed
qed

lemma refs_live_init: "refs_live local_world"
  by (simp add: refs_live_def local_world_def DbusInterfaceBase_init_def)

lemma refs_live_signal_step: "refs_live w \<Longrightarrow> refs_live (signal_step w op)"
  by (cases op) (simp_all add: refs_live_subscribe refs_live_collect refs_live_emit)

lemma refs_live_reachable: "refs_live w \<Longrightarrow> refs_live (foldl signal_step w ops)"
  by (induction ops arbitrary: w) (simp_all add: refs_live_signal_step)

lemma refs_live_subscribers:
  assumes "refs_live w" and "local_signal_queues (inst w) = Some d"
  shows "\<forall>q \<in> set (subscribers d sig_id). queues w q \<noteq> None"
proof (cases "d sig_id")
  case None
  then show ?thesis by (simp add: subscribers_def)
next
  case (Some l)
  from assms Some have "\<forall>q \<in> set l. map_option fst (queues w q) = Some sig_id"
    unfolding refs_live_def by blast
  then show ?thesis using Some by (auto simp: subscribers_def)
qed

section \<open>Proofs: serving\<close>

lemma dict_append_keys:
  "set (map fst (dict_append d k v)) = insert k (set (map fst d))"
  by (induction d k v rule: dict_append.induct) auto

lemma dict_append_distinct:
  "distinct (map fst d) \<Longrightarrow> distinct (map fst (dict_append d k v))"
proof (induction d k v rule: dict_append.induct)
  case (1 k v)
  then show ?case by simp
next
  case (2 k' vs rest k v)
  then show ?case
    using dict_append_keys [of rest k v] by auto
qed

lemma dict_append_get:
  "dict_get (dict_append d k v) n = (if n = k then dict_get d k @ [v] else dict_get d n)"
  by (induction d k v rule: dict_append.induct) (auto simp: dict_get_def)

lemma collect_members_skip:
  assumes "\<not> served_by_code (key, val)" and "val \<noteq> Descriptor"
  shows "collect_members ((key, val) # ms) acc = collect_members ms acc"
  using assms
  by (cases val)
     (simp_all add: served_by_code_def is_method_or_property_def member_serving_enabled_def)

lemma collect_members_take:
  assumes "served_by_code (key, val)" and "member_interface_name val = Some n"
  shows "collect_members ((key, val) # ms) acc = collect_members ms (dict_append acc n (key, val))"
  using assms
  by (cases val)
     (simp_all add: served_by_code_def is_method_or_property_def member_serving_enabled_def
                    member_interface_name_def)

lemma grouped_refl: "grouped acc [] acc"
  by (simp add: grouped_def)

lemma grouped_skip:
  assumes "\<not> served_by_code km" and "grouped acc ms im"
  shows "grouped acc (km # ms) im"
proof -
  have e1: "{n. \<exists>km' \<in> set (km # ms). served_by_code km' \<and> member_interface_name (snd km') = Some n}
              = {n. \<exists>km' \<in> set ms. served_by_code km' \<and> member_interface_name (snd km') = Some n}"
    using assms(1) by auto
  have e2: "\<And>n. {km' \<in> set (km # ms). served_by_code km' \<and> member_interface_name (snd km') = Some n}
              = {km' \<in> set ms. served_by_code km' \<and> member_interface_name (snd km') = Some n}"
    using assms(1) by auto
  show ?thesis
    using assms(2) unfolding grouped_def e1 e2 .
qed

lemma grouped_take:
  assumes "served_by_code km" and "member_interface_name (snd km) = Some n"
    and g: "grouped (dict_append acc n km) ms im"
  shows "grouped acc (km # ms) im"
proof -
  have e1: "{n'. \<exists>km' \<in> set (km # ms). served_by_code km' \<and> member_interface_name (snd km') = Some n'}
              = insert n {n'. \<exists>km' \<in> set ms. served_by_code km' \<and> member_interface_name (snd km') = Some n'}"
    using assms(1,2) by auto
  have e2: "{km' \<in> set (km # ms). served_by_code km' \<and> member_interface_name (snd km') = Some n'}
              = (if n' = n then insert km {km' \<in> set ms. served_by_code km' \<and> member_interface_name (snd km') = Some n'}
                 else {km' \<in> set ms. served_by_code km' \<and> member_interface_name (snd km') = Some n'})" for n'
    using assms(1,2) by auto
  note G = g [unfolded grouped_def]
  note g1 = G [THEN conjunct1]
  note g2 = G [THEN conjunct2, THEN conjunct1, unfolded dict_append_keys]
  note g3 = G [THEN conjunct2, THEN conjunct2, rule_format, unfolded dict_append_get]
  define S where "S = {n'. \<exists>km' \<in> set ms. served_by_code km' \<and> member_interface_name (snd km') = Some n'}"
  define T where "T = (\<lambda>n'. {km' \<in> set ms. served_by_code km' \<and> member_interface_name (snd km') = Some n'})"
  have d: "distinct (map fst acc) \<longrightarrow> distinct (map fst im)"
  proof
    assume "distinct (map fst acc)"
    then have "distinct (map fst (dict_append acc n km))"
      by (rule dict_append_distinct)
    with g1 show "distinct (map fst im)" by simp
  qed
  have k: "set (map fst im) = set (map fst acc)
           \<union> {n. \<exists>km' \<in> set (km # ms). served_by_code km' \<and> member_interface_name (snd km') = Some n}"
    unfolding e1 using g2 unfolding S_def [symmetric] by blast
  have l: "set (dict_get im n') = set (dict_get acc n')
           \<union> {km' \<in> set (km # ms). served_by_code km' \<and> member_interface_name (snd km') = Some n'}" for n'
  proof (cases "n' = n")
    case True
    have "set (dict_get im n) = set (dict_get acc n @ [km]) \<union> T n"
      using g3 [of n] by (simp add: T_def)
    then show ?thesis
      unfolding e2 using True by (simp add: T_def)
  next
    case False
    have "set (dict_get im n') = set (dict_get acc n') \<union> T n'"
      using g3 [of n'] False by (simp add: T_def)
    then show ?thesis
      unfolding e2 using False by (simp add: T_def)
  qed
  show ?thesis
    unfolding grouped_def using d k l by blast
qed

lemma collect_members_grouped:
  assumes "\<forall>km \<in> set ms. snd km \<noteq> Descriptor"
    and "\<forall>km \<in> set ms. served_by_code km \<longrightarrow> member_interface_name (snd km) \<noteq> None"
  shows "\<exists>im. collect_members ms acc = Inr im \<and> grouped acc ms im"
  using assms
proof (induction ms arbitrary: acc)
  case Nil
  then show ?case by (simp add: grouped_refl)
next
  case (Cons km ms)
  obtain key val where km: "km = (key, val)" by (cases km)
  have nd: "val \<noteq> Descriptor" using Cons.prems(1) km by simp
  have rest: "\<forall>km \<in> set ms. snd km \<noteq> Descriptor"
    "\<forall>km \<in> set ms. served_by_code km \<longrightarrow> member_interface_name (snd km) \<noteq> None"
    using Cons.prems by simp_all
  show ?case
  proof (cases "served_by_code km")
    case False
    have skip: "collect_members (km # ms) acc = collect_members ms acc"
      using collect_members_skip [of key val ms acc] False nd km by simp
    from Cons.IH [OF rest, of acc] obtain im
      where "collect_members ms acc = Inr im" and "grouped acc ms im"
      by blast
    then show ?thesis
      using skip grouped_skip [OF False] by auto
  next
    case True
    have "member_interface_name (snd km) \<noteq> None"
      using Cons.prems(2) True by simp
    then obtain n where n: "member_interface_name (snd km) = Some n"
      by (cases "member_interface_name (snd km)") simp_all
    have take: "collect_members (km # ms) acc = collect_members ms (dict_append acc n km)"
      using collect_members_take [of key val n ms acc] True n km by simp
    from Cons.IH [OF rest, of "dict_append acc n km"] obtain im
      where "collect_members ms (dict_append acc n km) = Inr im"
        and "grouped (dict_append acc n km) ms im"
      by blast
    then show ?thesis
      using take grouped_take [OF True n] by auto
  qed
qed

lemma build_interface_entries:
  assumes "\<forall>km \<in> set l. is_method_or_property (snd km)"
  shows "\<exists>iface. build_interface l = Inr iface
           \<and> list_all2 (\<lambda>km e. interface_entry km = Inr e) l iface"
  using assms
proof (induction l)
  case Nil
  then show ?case by simp
next
  case (Cons km l)
  then obtain iface where i: "build_interface l = Inr iface"
    "list_all2 (\<lambda>km e. interface_entry km = Inr e) l iface"
    by auto
  obtain key val where km: "km = (key, val)" by (cases km)
  have "is_method_or_property val" using Cons.prems km by simp
  then obtain e where e: "interface_entry km = Inr e"
    by (cases val) (auto simp: km interface_entry_def is_method_or_property_def)
  show ?case
    using i e by simp
qed

lemma register_interfaces_all:
  assumes "activated_interfaces (inst w) = Some acts"
    and "\<forall>nl \<in> set im. \<forall>km \<in> set (snd nl). is_method_or_property (snd km)"
  shows "\<exists>regs. register_interfaces bus path im w =
           (Inr PNone,
            w\<lparr>inst := (inst w)\<lparr>activated_interfaces := Some (acts @ map snd regs)\<rparr>,
              bus_log := bus_log w @ map (\<lambda>(n, iface). AddInterface bus iface path n) regs\<rparr>)
         \<and> list_all2 (\<lambda>nl reg. fst reg = fst nl \<and> build_interface (snd nl) = Inr (snd reg)) im regs"
  using assms
proof (induction im arbitrary: w acts)
  case Nil
  then show ?case by simp
next
  case (Cons nl im)
  obtain n l where nl: "nl = (n, l)" by (cases nl)
  have "\<forall>km \<in> set l. is_method_or_property (snd km)"
    using Cons.prems(2) nl by simp
  from build_interface_entries [OF this] obtain iface where b: "build_interface l = Inr iface"
    by blast
  let ?w = "w\<lparr>bus_log := bus_log w @ [AddInterface bus iface path n],
               inst := (inst w)\<lparr>activated_interfaces := Some (acts @ [iface])\<rparr>\<rparr>"
  have step: "register_interfaces bus path (nl # im) w = register_interfaces bus path im ?w"
    using b Cons.prems(1) by (simp add: nl Let_def)
  have a: "activated_interfaces (inst ?w) = Some (acts @ [iface])" by simp
  have r: "\<forall>nl \<in> set im. \<forall>km \<in> set (snd nl). is_method_or_property (snd km)"
    using Cons.prems(2) by simp
  from Cons.IH [OF a r] obtain regs where regs:
    "register_interfaces bus path im ?w =
           (Inr PNone,
            ?w\<lparr>inst := (inst ?w)\<lparr>activated_interfaces := Some ((acts @ [iface]) @ map snd regs)\<rparr>,
              bus_log := bus_log ?w @ map (\<lambda>(n, iface). AddInterface bus iface path n) regs\<rparr>)"
    "list_all2 (\<lambda>nl reg. fst reg = fst nl \<and> build_interface (snd nl) = Inr (snd reg)) im regs"
    by blast
  show ?case
  proof (intro exI [of _ "(n, iface) # regs"] conjI)
    show "register_interfaces bus path (nl # im) w =
           (Inr PNone,
            w\<lparr>inst := (inst w)\<lparr>activated_interfaces := Some (acts @ map snd ((n, iface) # regs))\<rparr>,
              bus_log := bus_log w @ map (\<lambda>(n, iface). AddInterface bus iface path n) ((n, iface) # regs)\<rparr>)"
      unfolding step regs(1) by simp
    show "list_all2 (\<lambda>nl reg. fst reg = fst nl \<and> build_interface (snd nl) = Inr (snd reg))
            (nl # im) ((n, iface) # regs)"
      using regs(2) b nl by simp
  qed
qed

lemma build_interface_list_all2:
  "build_interface l = Inr iface \<Longrightarrow> list_all2 (\<lambda>km e. interface_entry km = Inr e) l iface"
proof (induction l arbitrary: iface)
  case Nil
  then show ?case by simp
next
  case (Cons km l)
  from Cons.prems obtain e rest where e: "interface_entry km = Inr e"
    and r: "build_interface l = Inr rest" and i: "iface = e # rest"
    by (auto split: sum.splits)
  show ?case
    using Cons.IH [OF r] e i by simp
qed

lemma dict_get_member:
  assumes "distinct (map fst d)" and "(n, l) \<in> set d"
  shows "dict_get d n = l"
  using assms by (simp add: dict_get_def)

lemma list_all2_left:
  "list_all2 P xs ys \<Longrightarrow> x \<in> set xs \<Longrightarrow> \<exists>y \<in> set ys. P x y"
  by (induction rule: list_all2_induct) auto

lemma list_all2_right:
  "list_all2 P xs ys \<Longrightarrow> y \<in> set ys \<Longrightarrow> \<exists>x \<in> set xs. P x y"
  by (induction rule: list_all2_induct) auto

lemma registrations_cover:
  assumes la: "list_all2 (\<lambda>nl reg. fst reg = fst nl \<and> build_interface (snd nl) = Inr (snd reg)) im regs"
    and "(n, l) \<in> set im" and "km \<in> set l"
  shows "\<exists>iface e. (n, iface) \<in> set regs \<and> interface_entry km = Inr e \<and> e \<in> set iface"
proof -
  from list_all2_left [OF la assms(2)] obtain reg where reg: "reg \<in> set regs" "fst reg = n"
    "build_interface l = Inr (snd reg)"
    by auto
  from list_all2_left [OF build_interface_list_all2 [OF reg(3)] assms(3)]
  obtain e where e: "interface_entry km = Inr e" "e \<in> set (snd reg)"
    by auto
  have "reg = (n, snd reg)"
    using reg(2) by (simp add: prod_eq_iff)
  then have "(n, snd reg) \<in> set regs"
    using reg(1) by simp
  with e show ?thesis by blast
qed

lemma registrations_origin:
  assumes la: "list_all2 (\<lambda>nl reg. fst reg = fst nl \<and> build_interface (snd nl) = Inr (snd reg)) im regs"
    and "(n, iface) \<in> set regs"
  shows "\<exists>l. (n, l) \<in> set im \<and> length l = length iface
            \<and> (\<forall>e \<in> set iface. \<exists>km \<in> set l. interface_entry km = Inr e)"
proof -
  from list_all2_right [OF la assms(2)] obtain nl where nl: "nl \<in> set im" "fst nl = n"
    "build_interface (snd nl) = Inr iface"
    by auto
  have l2: "list_all2 (\<lambda>km e. interface_entry km = Inr e) (snd nl) iface"
    by (rule build_interface_list_all2 [OF nl(3)])
  have "\<forall>e \<in> set iface. \<exists>km \<in> set (snd nl). interface_entry km = Inr e"
    using list_all2_right [OF l2] by blast
  moreover have "length (snd nl) = length iface"
    using l2 by (rule list_all2_lengthD)
  moreover have "(n, snd nl) \<in> set im"
  proof -
    have "nl = (n, snd nl)"
      using nl(2) by (simp add: prod_eq_iff)
    then show ?thesis using nl(1) by simp
  qed
  ultimately show ?thesis by blast
qed

lemma dict_get_Nil: "dict_get [] n = []"
  by (simp add: dict_get_def)

lemma start_serving_success:
  assumes acts: "activated_interfaces (inst w) = Some acts"
    and nd: "\<forall>km \<in> set members. snd km \<noteq> Descriptor"
    and named: "\<forall>km \<in> set members. served_by_code km \<longrightarrow> member_interface_name (snd km) \<noteq> None"
  shows "\<exists>regs.
      start_serving members w bus object_path =
        (Inr PNone,
         w\<lparr>inst := (inst w)\<lparr>attached_bus := Some bus,
                              serving_object_path := Some (Some object_path),
                              activated_interfaces := Some (acts @ map snd regs)\<rparr>,
           bus_log := bus_log w @ map (\<lambda>(n, iface). AddInterface bus iface object_path n) regs\<rparr>)
      \<and> distinct (map fst regs)
      \<and> (\<forall>km \<in> set members. served_by_code km \<longrightarrow>
            (\<exists>n iface e. member_interface_name (snd km) = Some n \<and> (n, iface) \<in> set regs
                          \<and> interface_entry km = Inr e \<and> e \<in> set iface))
      \<and> (\<forall>reg \<in> set regs. snd reg \<noteq> []
            \<and> (\<forall>e \<in> set (snd reg). \<exists>km \<in> set members.
                  member_serving_enabled (snd km)
                  \<and> member_interface_name (snd km) = Some (fst reg)
                  \<and> interface_entry km = Inr e))"
proof -
  let ?w0 = "w\<lparr>inst := (inst w)\<lparr>attached_bus := Some bus,
                                 serving_object_path := Some (Some object_path)\<rparr>\<rparr>"
  from collect_members_grouped [OF nd named, of "[]"] obtain im
    where im: "collect_members members [] = Inr im" and g: "grouped [] members im"
    by blast
  have dist: "distinct (map fst im)"
    using g by (simp add: grouped_def)
  have keys: "set (map fst im)
                = {n. \<exists>km \<in> set members. served_by_code km \<and> member_interface_name (snd km) = Some n}"
    using g by (simp add: grouped_def)
  have lists: "set (dict_get im n)
                = {km \<in> set members. served_by_code km \<and> member_interface_name (snd km) = Some n}" for n
    using g unfolding grouped_def by (simp add: dict_get_Nil)
  have inl: "set l = {km \<in> set members. served_by_code km \<and> member_interface_name (snd km) = Some n}"
    if "(n, l) \<in> set im" for n l
    using lists [of n] dict_get_member [OF dist that] by simp
  have mp: "\<forall>nl \<in> set im. \<forall>km \<in> set (snd nl). is_method_or_property (snd km)"
  proof (intro ballI)
    fix nl km assume "nl \<in> set im" and km: "km \<in> set (snd nl)"
    then have "(fst nl, snd nl) \<in> set im" by simp
    from inl [OF this] km show "is_method_or_property (snd km)"
      by (simp add: served_by_code_def)
  qed
  have a0: "activated_interfaces (inst ?w0) = Some acts"
    using acts by simp
  from register_interfaces_all [OF a0 mp, of bus object_path] obtain regs
    where run: "register_interfaces bus object_path im ?w0 =
           (Inr PNone,
            ?w0\<lparr>inst := (inst ?w0)\<lparr>activated_interfaces := Some (acts @ map snd regs)\<rparr>,
              bus_log := bus_log ?w0 @ map (\<lambda>(n, iface). AddInterface bus iface object_path n) regs\<rparr>)"
      and la: "list_all2 (\<lambda>nl reg. fst reg = fst nl \<and> build_interface (snd nl) = Inr (snd reg)) im regs"
    by blast
  have fsts: "map fst regs = map fst im"
    using la by (induction im regs rule: list_all2_induct) simp_all
  show ?thesis
  proof (intro exI [of _ regs] conjI ballI impI)
    show "start_serving members w bus object_path =
        (Inr PNone,
         w\<lparr>inst := (inst w)\<lparr>attached_bus := Some bus,
                              serving_object_path := Some (Some object_path),
                              activated_interfaces := Some (acts @ map snd regs)\<rparr>,
           bus_log := bus_log w @ map (\<lambda>(n, iface). AddInterface bus iface object_path n) regs\<rparr>)"
      by (simp add: start_serving_def im run)
    show "distinct (map fst regs)"
      using fsts dist by simp
  next
    fix km assume km: "km \<in> set members" and s: "served_by_code km"
    with named obtain n where n: "member_interface_name (snd km) = Some n"
      by (cases "member_interface_name (snd km)") auto
    have "n \<in> set (map fst im)"
      unfolding keys using km s n by blast
    then obtain l where l: "(n, l) \<in> set im" by auto
    have "km \<in> set l"
      unfolding inl [OF l] using km s n by simp
    from registrations_cover [OF la l this] n
    show "\<exists>n iface e. member_interface_name (snd km) = Some n \<and> (n, iface) \<in> set regs
                          \<and> interface_entry km = Inr e \<and> e \<in> set iface"
      by blast
  next
    fix reg assume reg: "reg \<in> set regs"
    then have r: "(fst reg, snd reg) \<in> set regs" by simp
    from registrations_origin [OF la r] obtain l where l: "(fst reg, l) \<in> set im"
      "length l = length (snd reg)"
      "\<forall>e \<in> set (snd reg). \<exists>km \<in> set l. interface_entry km = Inr e"
      by blast
    have "fst reg \<in> set (map fst im)" using l(1) by force
    then obtain km0 where "km0 \<in> set members" "served_by_code km0"
      "member_interface_name (snd km0) = Some (fst reg)"
      unfolding keys by blast
    then have "km0 \<in> set l" unfolding inl [OF l(1)] by simp
    then have "l \<noteq> []" by auto
    then show "snd reg \<noteq> []" using l(2) by auto
  next
    fix reg e assume reg: "reg \<in> set regs" and e: "e \<in> set (snd reg)"
    then have r: "(fst reg, snd reg) \<in> set regs" by simp
    from registrations_origin [OF la r] obtain l where l: "(fst reg, l) \<in> set im"
      "\<forall>e \<in> set (snd reg). \<exists>km \<in> set l. interface_entry km = Inr e"
      by blast
    from l(2) e obtain km where km: "km \<in> set l" "interface_entry km = Inr e" by blast
    from km(1) have "km \<in> set members" "served_by_code km"
      "member_interface_name (snd km) = Some (fst reg)"
      unfolding inl [OF l(1)] by simp_all
    then show "\<exists>km \<in> set members. member_serving_enabled (snd km)
                  \<and> member_interface_name (snd km) = Some (fst reg)
                  \<and> interface_entry km = Inr e"
      using km(2) by (auto simp: served_by_code_def)
  qed
qed

lemma collect_members_fails:
  assumes "\<exists>km \<in> set ms. fails_assertion km"
  shows "collect_members ms acc = Inl AssertionError"
  using assms
proof (induction ms arbitrary: acc)
  case Nil
  then show ?case by simp
next
  case (Cons km ms)
  obtain key val where km: "km = (key, val)" by (cases km)
  show ?case
  proof (cases "fails_assertion km")
    case True
    then show ?thesis
      by (cases val)
         (auto simp: km fails_assertion_def served_by_code_def is_method_or_property_def
                     member_serving_enabled_def member_interface_name_def)
  next
    case False
    with Cons.prems have rest: "\<exists>km \<in> set ms. fails_assertion km" by simp
    have nd: "val \<noteq> Descriptor" using False km by (simp add: fails_assertion_def)
    show ?thesis
    proof (cases "served_by_code km")
      case served: True
      with False obtain n where n: "member_interface_name val = Some n"
        by (cases "member_interface_name val") (simp_all add: fails_assertion_def km)
      have "collect_members (km # ms) acc = collect_members ms (dict_append acc n (key, val))"
        using collect_members_take [of key val n ms acc] served n km by simp
      then show ?thesis using Cons.IH [OF rest] by simp
    next
      case unserved: False
      have "collect_members (km # ms) acc = collect_members ms acc"
        using collect_members_skip [of key val ms acc] unserved nd km by simp
      then show ?thesis using Cons.IH [OF rest] by simp
    qed
  qed
qed

lemma start_serving_failure:
  assumes "\<exists>km \<in> set members. fails_assertion km"
  shows "start_serving members w bus object_path =
           (Inl AssertionError,
            w\<lparr>inst := (inst w)\<lparr>attached_bus := Some bus,
                                 serving_object_path := Some (Some object_path)\<rparr>\<rparr>)"
  using collect_members_fails [OF assms, of "[]"] by (simp add: start_serving_def)

text \<open>
  C2, as the code has it, for methods and properties, on an instance that has its
  \<^verbatim>\<open>activated_interfaces\<close> list. \<^verbatim>\<open>start_serving\<close> first stores the bus and the object
  path, then asserts, member by member, that no member is a descriptor object met unbound
  and that every method and property with serving enabled has an interface name. If an
  assertion fails at some member, the call fails with \<^verbatim>\<open>AssertionError\<close> and nothing is
  registered: nothing is handed to the bus and the activated-interfaces list is as it
  was. If none fails, the call succeeds; exactly one registration is made per interface
  name, each registered with the bus at the given object path and appended, in the same
  order, to the activated-interfaces list; every serving-enabled method and property is
  in the registration of its interface name with its entry points; and every entry of
  every registration comes from a member with serving enabled and that interface name,
  so a serving-disabled member is never registered.
\<close>

theorem start_serving_registers:
  assumes acts: "activated_interfaces (inst w) = Some acts"
  shows "((\<exists>km \<in> set members. fails_assertion km) \<longrightarrow>
            start_serving members w bus object_path =
              (Inl AssertionError,
               w\<lparr>inst := (inst w)\<lparr>attached_bus := Some bus,
                                    serving_object_path := Some (Some object_path)\<rparr>\<rparr>))
       \<and> (\<not> (\<exists>km \<in> set members. fails_assertion km) \<longrightarrow>
            (\<exists>regs.
               start_serving members w bus object_path =
                 (Inr PNone,
                  w\<lparr>inst := (inst w)\<lparr>attached_bus := Some bus,
                                       serving_object_path := Some (Some object_path),
                                       activated_interfaces := Some (acts @ map snd regs)\<rparr>,
                    bus_log := bus_log w
                      @ map (\<lambda>(n, iface). AddInterface bus iface object_path n) regs\<rparr>)
               \<and> distinct (map fst regs)
               \<and> (\<forall>km \<in> set members. served_by_code km \<longrightarrow>
                     (\<exists>n iface e. member_interface_name (snd km) = Some n
                                   \<and> (n, iface) \<in> set regs
                                   \<and> interface_entry km = Inr e \<and> e \<in> set iface))
               \<and> (\<forall>reg \<in> set regs. snd reg \<noteq> []
                     \<and> (\<forall>e \<in> set (snd reg). \<exists>km \<in> set members.
                           member_serving_enabled (snd km)
                           \<and> member_interface_name (snd km) = Some (fst reg)
                           \<and> interface_entry km = Inr e))))"
proof (intro conjI impI)
  assume "\<exists>km \<in> set members. fails_assertion km"
  then show "start_serving members w bus object_path =
              (Inl AssertionError,
               w\<lparr>inst := (inst w)\<lparr>attached_bus := Some bus,
                                    serving_object_path := Some (Some object_path)\<rparr>\<rparr>)"
    by (rule start_serving_failure)
next
  assume ok: "\<not> (\<exists>km \<in> set members. fails_assertion km)"
  have nd: "\<forall>km \<in> set members. snd km \<noteq> Descriptor"
    using ok by (auto simp: fails_assertion_def)
  have named: "\<forall>km \<in> set members. served_by_code km \<longrightarrow> member_interface_name (snd km) \<noteq> None"
    using ok by (auto simp: fails_assertion_def)
  show "\<exists>regs.
               start_serving members w bus object_path =
                 (Inr PNone,
                  w\<lparr>inst := (inst w)\<lparr>attached_bus := Some bus,
                                       serving_object_path := Some (Some object_path),
                                       activated_interfaces := Some (acts @ map snd regs)\<rparr>,
                    bus_log := bus_log w
                      @ map (\<lambda>(n, iface). AddInterface bus iface object_path n) regs\<rparr>)
               \<and> distinct (map fst regs)
               \<and> (\<forall>km \<in> set members. served_by_code km \<longrightarrow>
                     (\<exists>n iface e. member_interface_name (snd km) = Some n
                                   \<and> (n, iface) \<in> set regs
                                   \<and> interface_entry km = Inr e \<and> e \<in> set iface))
               \<and> (\<forall>reg \<in> set regs. snd reg \<noteq> []
                     \<and> (\<forall>e \<in> set (snd reg). \<exists>km \<in> set members.
                           member_serving_enabled (snd km)
                           \<and> member_interface_name (snd km) = Some (fst reg)
                           \<and> interface_entry km = Inr e))"
    by (rule start_serving_success [OF acts nd named])
qed

text \<open>
  The members of an example instance, served. The method \<^verbatim>\<open>ping\<close> has serving disabled
  and is left out. The signal \<^verbatim>\<open>changed\<close> has serving enabled and an interface name, and
  is in no registration either: the first loop of \<^verbatim>\<open>start_serving\<close> passes over every
  bound signal, so the \<^verbatim>\<open>add_signal\<close> branch of the second loop is never reached.
\<close>

lemma example_members_entries:
  "start_serving example_members local_world 1 ''/org/example'' =
     (Inr PNone,
      local_world\<lparr>inst := (inst local_world)\<lparr>
          attached_bus := Some 1,
          serving_object_path := Some (Some ''/org/example''),
          activated_interfaces := Some
            [[MethodMember ''Example'' ''iiii'' [] ''(iiii)'' [] 0 (CallFromDbus ''example''),
              PropertyMember ''Version'' ''s'' (GetSync ''version'') None 0,
              PropertyMember ''Volume'' ''i'' (GetSync ''volume'') (Some (SetSync ''volume'')) 0]]\<rparr>,
        bus_log :=
          [AddInterface 1
             [MethodMember ''Example'' ''iiii'' [] ''(iiii)'' [] 0 (CallFromDbus ''example''),
              PropertyMember ''Version'' ''s'' (GetSync ''version'') None 0,
              PropertyMember ''Volume'' ''i'' (GetSync ''volume'') (Some (SetSync ''volume'')) 0]
             ''/org/example'' ''org.example'']\<rparr>)"
  by (simp add: start_serving_def example_members_def local_world_def DbusInterfaceBase_init_def
                changed_signal_def example_method_def ping_method_def readonly_property_def
                volume_property_def interface_entry_def Let_def)

theorem start_serving_registers_witness:
  "(\<exists>regs.
      start_serving example_members local_world 1 ''/org/example'' =
        (Inr PNone,
         local_world\<lparr>inst := (inst local_world)\<lparr>attached_bus := Some 1,
                              serving_object_path := Some (Some ''/org/example''),
                              activated_interfaces := Some ([] @ map snd regs)\<rparr>,
           bus_log := bus_log local_world
                        @ map (\<lambda>(n, iface). AddInterface 1 iface ''/org/example'' n) regs\<rparr>)
      \<and> distinct (map fst regs)
      \<and> (\<exists>iface. (''org.example'', iface) \<in> set regs
            \<and> MethodMember ''Example'' ''iiii'' [] ''(iiii)'' [] 0 (CallFromDbus ''example'')
                 \<in> set iface))
   \<and> start_serving orphan_members local_world 1 ''/org/example'' =
       (Inl AssertionError,
        local_world\<lparr>inst := (inst local_world)\<lparr>attached_bus := Some 1,
                             serving_object_path := Some (Some ''/org/example'')\<rparr>\<rparr>)"
proof -
  have acts: "activated_interfaces (inst local_world) = Some []"
    by (simp add: local_world_def DbusInterfaceBase_init_def)
  have ok: "\<not> (\<exists>km \<in> set example_members. fails_assertion km)"
    by (simp add: example_members_def fails_assertion_def served_by_code_def
                  is_method_or_property_def member_serving_enabled_def
                  member_interface_name_def example_method_def ping_method_def
                  readonly_property_def volume_property_def changed_signal_def)
  have bad: "\<exists>km \<in> set orphan_members. fails_assertion km"
    by (simp add: orphan_members_def fails_assertion_def served_by_code_def
                  is_method_or_property_def member_serving_enabled_def
                  member_interface_name_def orphan_method_def example_method_def)
  have m: "(''example'', MethodBinded example_method) \<in> set example_members"
    by (simp add: example_members_def)
  have s: "served_by_code (''example'', MethodBinded example_method)"
    by (simp add: served_by_code_def is_method_or_property_def member_serving_enabled_def
                  example_method_def)
  have n: "member_interface_name (snd (''example'', MethodBinded example_method))
             = Some ''org.example''"
    by (simp add: member_interface_name_def example_method_def)
  have e: "interface_entry (''example'', MethodBinded example_method)
             = Inr (MethodMember ''Example'' ''iiii'' [] ''(iiii)'' [] 0 (CallFromDbus ''example''))"
    by (simp add: interface_entry_def example_method_def)
  note good = start_serving_registers [OF acts, of example_members 1 "''/org/example''",
                THEN conjunct2, rule_format, OF ok]
  note fail = start_serving_registers [OF acts, of orphan_members 1 "''/org/example''",
                THEN conjunct1, rule_format, OF bad]
  from good obtain regs where r:
    "start_serving example_members local_world 1 ''/org/example'' =
        (Inr PNone,
         local_world\<lparr>inst := (inst local_world)\<lparr>attached_bus := Some 1,
                              serving_object_path := Some (Some ''/org/example''),
                              activated_interfaces := Some ([] @ map snd regs)\<rparr>,
           bus_log := bus_log local_world
                        @ map (\<lambda>(n, iface). AddInterface 1 iface ''/org/example'' n) regs\<rparr>)"
    "distinct (map fst regs)"
    "\<forall>km \<in> set example_members. served_by_code km \<longrightarrow>
            (\<exists>n iface e. member_interface_name (snd km) = Some n \<and> (n, iface) \<in> set regs
                          \<and> interface_entry km = Inr e \<and> e \<in> set iface)"
    by blast
  from r(3) m s obtain n' iface e' where
    "member_interface_name (snd (''example'', MethodBinded example_method)) = Some n'"
    "(n', iface) \<in> set regs"
    "interface_entry (''example'', MethodBinded example_method) = Inr e'" "e' \<in> set iface"
    by blast
  with n e have "(''org.example'', iface) \<in> set regs
      \<and> MethodMember ''Example'' ''iiii'' [] ''(iiii)'' [] 0 (CallFromDbus ''example'') \<in> set iface"
    by simp
  with r(1,2) fail show ?thesis by blast
qed

theorem start_serving_counterexample:
  "spec_served (''example'', MethodBinded example_method)
   \<and> fst (start_serving orphan_members local_world 1 ''/org/example'') = Inl AssertionError
   \<and> bus_log (snd (start_serving orphan_members local_world 1 ''/org/example'')) = []
   \<and> activated_interfaces (inst (snd (start_serving orphan_members local_world 1 ''/org/example'')))
       = Some []"
  by (simp add: spec_served_def member_serving_enabled_def member_interface_name_def
                start_serving_def orphan_members_def orphan_method_def example_method_def
                local_world_def DbusInterfaceBase_init_def Let_def)

section \<open>Proofs: class construction\<close>

text \<open>
  The class values above are what \<^verbatim>\<open>__new__\<close> builds for the class statements of the
  library and of the test, in order.
\<close>

lemma library_classes_built:
  "meta_new ''DbusPeerInterface'' [DbusInterfaceBase_class]
     [(''ping'', NsDescriptor 0), (''get_machine_id'', NsDescriptor 1)]
     (Some ''org.freedesktop.DBus.Peer'') False library_heap
   = (Inr DbusPeerInterface_class,
      library_heap[0 := stamp (Some ''org.freedesktop.DBus.Peer'') False (library_heap ! 0),
                   1 := stamp (Some ''org.freedesktop.DBus.Peer'') False (library_heap ! 1)])"
  "meta_new ''DbusIntrospectable'' [DbusInterfaceBase_class]
     [(''introspect'', NsDescriptor 2)]
     (Some ''org.freedesktop.DBus.Introspectable'') False
     (library_heap[0 := stamp (Some ''org.freedesktop.DBus.Peer'') False (library_heap ! 0),
                   1 := stamp (Some ''org.freedesktop.DBus.Peer'') False (library_heap ! 1)])
   = (Inr DbusIntrospectable_class, stamped_heap)"
  "meta_new ''DbusInterfaceCommon'' [DbusPeerInterface_class, DbusIntrospectable_class]
     [] None True stamped_heap
   = (Inr DbusInterfaceCommon_class, stamped_heap)"
  "meta_new ''GoodDbusInterface'' [DbusInterfaceCommon_class]
     [(''test_method'', NsDescriptor 3), (''test_property'', NsDescriptor 4)]
     None True stamped_heap
   = (Inr GoodDbusInterface_class, stamped_heap)"
  by (simp_all add: meta_new_def library_heap_def stamped_heap_def DbusInterfaceBase_class_def
                    DbusPeerInterface_class_def DbusIntrospectable_class_def
                    DbusInterfaceCommon_class_def GoodDbusInterface_class_def
                    stamp_def decorated_method_def test_property_descriptor_def)

text \<open>
  The four rejected subclasses of the test, and its accepted one: a plain function or
  a fresh descriptor at a key that the direct base declares raises \<^verbatim>\<open>TypeError\<close>; a new
  key is accepted.
\<close>

lemma test_bad_classes_rejected:
  "fst (meta_new ''BadMethodOverrideClass'' [GoodDbusInterface_class]
          [(''test_method'', NsFunction (plain_function ''test_method''))] None True stamped_heap)
   = Inl (TypeError
       ''Attempted to overload dbus defenition without using @dbus_overload decorator'')"
  "fst (meta_new ''BadDbusMethodOverrideClass'' [GoodDbusInterface_class]
          [(''test_method'', NsDescriptor 5)] None True
          (stamped_heap @ [decorated_method ''test_method'' ''TestMethod'']))
   = Inl (TypeError
       ''Attempted to overload dbus defenition without using @dbus_overload decorator'')"
  "fst (meta_new ''BadPropertyOverrideClass'' [GoodDbusInterface_class]
          [(''test_property'', NsFunction (plain_function ''test_property''))] None True
          stamped_heap)
   = Inl (TypeError
       ''Attempted to overload dbus defenition without using @dbus_overload decorator'')"
  "fst (meta_new ''BadDbusPropertyOverrideClass'' [GoodDbusInterface_class]
          [(''test_property'', NsDescriptor 5)] None True
          (stamped_heap @ [test_property_descriptor]))
   = Inl (TypeError
       ''Attempted to overload dbus defenition without using @dbus_overload decorator'')"
  by (simp_all add: meta_new_def GoodDbusInterface_class_def stamped_heap_def)

lemma test_good_subclass_accepted:
  "meta_new ''GoodSubclass'' [GoodDbusInterface_class]
     [(''new_method'', NsFunction (plain_function ''new_method''))] None True stamped_heap
   = (Inr \<lparr>class_name = ''GoodSubclass'',
           class_dict = [(''new_method'', NsFunction (plain_function ''new_method''))],
           subclass_of_base = True, dbus_declared_interfaces = [],
           dbus_interface_name = None, dbus_serving_enabled = True\<rparr>,
      stamped_heap)"
  by (simp add: meta_new_def GoodDbusInterface_class_def)

text \<open>
  C5 at its failing input. \<^verbatim>\<open>ping\<close> is a dbus method that \<^verbatim>\<open>DbusInterfaceCommon\<close>
  inherits from \<^verbatim>\<open>DbusPeerInterface\<close>, yet \<^verbatim>\<open>class Sub(DbusInterfaceCommon)\<close> with a plain
  \<^verbatim>\<open>def ping(self)\<close> in its body is constructed without error: the metaclass only
  collects the keys declared in the bodies of the direct bases, and the body of
  \<^verbatim>\<open>DbusInterfaceCommon\<close> declares none.
\<close>

theorem inherited_member_redeclared_without_error:
  "''ping'' \<in> set (dbus_declared_interfaces DbusPeerInterface_class)
   \<and> meta_new ''Sub'' [DbusInterfaceCommon_class]
        [(''ping'', NsFunction (plain_function ''ping''))] None True stamped_heap
     = (Inr \<lparr>class_name = ''Sub'',
             class_dict = [(''ping'', NsFunction (plain_function ''ping''))],
             subclass_of_base = True, dbus_declared_interfaces = [],
             dbus_interface_name = None, dbus_serving_enabled = True\<rparr>,
        stamped_heap)"
  by (simp add: meta_new_def DbusInterfaceCommon_class_def DbusPeerInterface_class_def)

section \<open>Proofs: descriptors after class construction\<close>

lemma stamp_idem: "stamp iname en (stamp iname en d) = stamp iname en d"
  by (cases d) (simp_all add: stamp_def)

lemma stamp_namespace_frame:
  "length (fst (stamp_namespace ns iname en h declared)) = length h
   \<and> (\<forall>b < length h. fst (stamp_namespace ns iname en h declared) ! b =
         (if NsDescriptor b \<in> snd ` set ns then stamp iname en (h ! b) else h ! b))"
proof (induction ns iname en h declared rule: stamp_namespace.induct)
  case (1 iname enabled h declared)
  then show ?case by simp
next
  case (2 key a rest iname enabled h declared)
  let ?h = "h[a := stamp iname enabled (h ! a)]"
  let ?r = "fst (stamp_namespace rest iname enabled ?h (List.insert key declared))"
  have len: "length ?r = length h" using "2.IH" by simp
  have ih: "\<And>b. b < length h \<Longrightarrow>
              ?r ! b = (if NsDescriptor b \<in> snd ` set rest then stamp iname enabled (?h ! b) else ?h ! b)"
    using "2.IH" by simp
  have "?r ! b = (if NsDescriptor b \<in> snd ` set ((key, NsDescriptor a) # rest)
                  then stamp iname enabled (h ! b) else h ! b)" if b: "b < length h" for b
  proof (cases "b = a")
    case True
    then show ?thesis using ih [OF b] b by (simp add: stamp_idem)
  next
    case False
    then show ?thesis using ih [OF b] b by simp
  qed
  then show ?case using len by simp
qed simp_all

lemma override_loop_appends:
  "\<exists>ext. snd (override_loop keys bases ns declared h sc) = h @ ext"
proof (induction keys arbitrary: ns declared h sc)
  case Nil
  then show ?case by simp
next
  case (Cons key keys)
  show ?case
  proof (cases "map_of ns key")
    case None
    then show ?thesis by simp
  next
    case (Some v)
    show ?thesis
    proof (cases v)
      case (NsOverload original)
      show ?thesis
      proof (cases "find_in_bases bases key sc")
        case None
        then show ?thesis using Some NsOverload by simp
      next
        case found: (Some f)
        show ?thesis
        proof (cases f)
          case (NsDescriptor a)
          show ?thesis
          proof (cases "heap_lookup h a")
            case None
            then show ?thesis using Some NsOverload found NsDescriptor by simp
          next
            case d: (Some d)
            show ?thesis
            proof (cases d)
            case (MethodD m)
            from Cons.IH [of "dict_set ns key (NsDescriptor (length h))" "List.insert key declared"
                            "h @ [MethodD (m\<lparr>original_method := original\<rparr>)]" "Some (NsDescriptor a)"]
            obtain ext where "snd (override_loop keys bases (dict_set ns key (NsDescriptor (length h)))
                                (List.insert key declared)
                                (h @ [MethodD (m\<lparr>original_method := original\<rparr>)])
                                (Some (NsDescriptor a)))
                              = (h @ [MethodD (m\<lparr>original_method := original\<rparr>)]) @ ext"
              by blast
            then show ?thesis
              using Some NsOverload found NsDescriptor d MethodD by simp
            qed (use Some NsOverload found NsDescriptor d in simp_all)
          qed
        qed (use Some NsOverload found in simp_all)
      qed
    qed (use Some in simp_all)
  qed
qed

lemma meta_new_frame:
  "length h \<le> length (snd (meta_new name bases ns iname en h))
   \<and> (\<forall>b < length h. snd (meta_new name bases ns iname en h) ! b =
         (if NsDescriptor b \<in> snd ` set ns then stamp iname en (h ! b) else h ! b))"
proof -
  obtain h1 declared where st: "stamp_namespace ns iname en h [] = (h1, declared)"
    by (cases "stamp_namespace ns iname en h []") blast
  have h1: "length h1 = length h"
    "\<And>b. b < length h \<Longrightarrow>
       h1 ! b = (if NsDescriptor b \<in> snd ` set ns then stamp iname en (h ! b) else h ! b)"
    using stamp_namespace_frame [of ns iname en h "[]"] st by simp_all
  let ?keys = "filter (\<lambda>key. key \<in> set (concat (map dbus_declared_interfaces
                                                 (filter subclass_of_base bases))))
                 (map fst ns)"
  obtain ext where ext: "snd (override_loop ?keys bases ns declared h1 None) = h1 @ ext"
    using override_loop_appends by blast
  have "snd (meta_new name bases ns iname en h) = h1 @ ext"
    using st ext
    by (cases "override_loop ?keys bases ns declared h1 None")
       (auto simp: meta_new_def Let_def split: sum.splits prod.splits)
  then show ?thesis
    using h1 by (simp add: nth_append)
qed

lemma setter_frame:
  "length (setter a f h) = length h
   \<and> (\<forall>b < length h. setter a f h ! b =
         (case h ! b of
            PropertyD p \<Rightarrow> if b = a then PropertyD (p\<lparr>property_set := Some f\<rparr>) else PropertyD p
          | d \<Rightarrow> d))"
  by (auto simp: setter_def heap_lookup_def nth_list_update split: descriptor.splits)

text \<open>
  C9, as the code has it. No bound-member operation, no serving, connecting or queue
  collection changes any descriptor. Descriptor fields are assigned after class
  construction by exactly two operations: \<^verbatim>\<open>DbusProperty.setter\<close>, which replaces the
  setter of the one property descriptor it is called on, and the construction of a
  further class, which stamps interface name and serving flag on the descriptor
  objects found in the new class body and otherwise only adds new objects.
\<close>

theorem descriptors_change_only_by_setter_and_stamping:
  "(\<not> assigns_descriptor_fields op \<longrightarrow> descriptors (step s op) = descriptors s)
   \<and> (\<forall>a f. op = OpSetter a f \<longrightarrow>
         length (descriptors (step s op)) = length (descriptors s)
         \<and> (\<forall>b < length (descriptors s). descriptors (step s op) ! b =
               (case descriptors s ! b of
                  PropertyD p \<Rightarrow>
                    if b = a then PropertyD (p\<lparr>property_set := Some f\<rparr>) else PropertyD p
                | d \<Rightarrow> d)))
   \<and> (\<forall>name bases ns iname en. op = OpNewClass name bases ns iname en \<longrightarrow>
         length (descriptors s) \<le> length (descriptors (step s op))
         \<and> (\<forall>b < length (descriptors s). descriptors (step s op) ! b =
               (if NsDescriptor b \<in> snd ` set ns then stamp iname en (descriptors s ! b)
                else descriptors s ! b)))"
proof (intro conjI allI impI)
  assume "\<not> assigns_descriptor_fields op"
  then show "descriptors (step s op) = descriptors s"
    by (cases op)
       (simp_all add: assigns_descriptor_fields_def split: option.splits descriptor.splits)
next
  fix a f assume "op = OpSetter a f"
  then show "length (descriptors (step s op)) = length (descriptors s)"
    using setter_frame [of a f "descriptors s"] by simp
next
  fix a f b assume "op = OpSetter a f" and "b < length (descriptors s)"
  then show "descriptors (step s op) ! b =
               (case descriptors s ! b of
                  PropertyD p \<Rightarrow>
                    if b = a then PropertyD (p\<lparr>property_set := Some f\<rparr>) else PropertyD p
                | d \<Rightarrow> d)"
    using setter_frame [of a f "descriptors s"] by simp
next
  fix name bases ns iname en assume "op = OpNewClass name bases ns iname en"
  then show "length (descriptors s) \<le> length (descriptors (step s op))"
    using meta_new_frame [of "descriptors s" name bases ns iname en] by simp
next
  fix name bases ns iname en b
  assume "op = OpNewClass name bases ns iname en" and "b < length (descriptors s)"
  then show "descriptors (step s op) ! b =
               (if NsDescriptor b \<in> snd ` set ns then stamp iname en (descriptors s ! b)
                else descriptors s ! b)"
    using meta_new_frame [of "descriptors s" name bases ns iname en] by simp
qed

theorem descriptors_change_only_by_setter_and_stamping_witness:
  "descriptors (step example_system (OpSetSync 0 (PInt 5))) = descriptors example_system
   \<and> descriptors (step example_system (OpEmit 1 (PInt 7))) = descriptors example_system
   \<and> descriptors (step example_system (OpSetter 0 store_volume)) ! 0
       = PropertyD (readonly_property\<lparr>property_set := Some store_volume\<rparr>)
   \<and> descriptors (step example_system (OpSetter 0 store_volume)) ! 2 = MethodD example_method
   \<and> descriptors (step example_system
        (OpNewClass ''Other'' [DbusInterfaceBase_class] [(''changed'', NsDescriptor 1)]
           (Some ''org.other'') False)) ! 1
       = SignalD (changed_signal\<lparr>interface_name := Some ''org.other'', serving_enabled := False\<rparr>)"
proof -
  have d: "descriptors example_system
             = [PropertyD readonly_property, SignalD changed_signal, MethodD example_method]"
    by (simp add: example_system_def)
  have n1: "\<not> assigns_descriptor_fields (OpSetSync 0 (PInt 5))"
    and n2: "\<not> assigns_descriptor_fields (OpEmit 1 (PInt 7))"
    by (simp_all add: assigns_descriptor_fields_def)
  note t1 = descriptors_change_only_by_setter_and_stamping
              [of "OpSetSync 0 (PInt 5)" example_system, THEN conjunct1, rule_format, OF n1]
  note t2 = descriptors_change_only_by_setter_and_stamping
              [of "OpEmit 1 (PInt 7)" example_system, THEN conjunct1, rule_format, OF n2]
  note t3 = descriptors_change_only_by_setter_and_stamping
              [of "OpSetter 0 store_volume" example_system, THEN conjunct2, THEN conjunct1,
               rule_format, OF refl, THEN conjunct2, rule_format]
  note t4 = descriptors_change_only_by_setter_and_stamping
              [of "OpNewClass ''Other'' [DbusInterfaceBase_class] [(''changed'', NsDescriptor 1)]
                     (Some ''org.other'') False" example_system,
               THEN conjunct2, THEN conjunct2, rule_format, OF refl, THEN conjunct2, rule_format]
  have "descriptors (step example_system (OpSetter 0 store_volume)) ! 0
          = PropertyD (readonly_property\<lparr>property_set := Some store_volume\<rparr>)"
    using t3 [of 0] by (simp add: d)
  moreover have "descriptors (step example_system (OpSetter 0 store_volume)) ! 2
          = MethodD example_method"
    using t3 [of 2] by (simp add: d)
  moreover have "descriptors (step example_system
        (OpNewClass ''Other'' [DbusInterfaceBase_class] [(''changed'', NsDescriptor 1)]
           (Some ''org.other'') False)) ! 1
       = SignalD (changed_signal\<lparr>interface_name := Some ''org.other'', serving_enabled := False\<rparr>)"
    using t4 [of 1] by (simp add: d stamp_def)
  ultimately show ?thesis using t1 t2 by blast
qed

theorem descriptor_setter_counterexample:
  "heap_lookup (descriptors example_system) 0 = Some (PropertyD readonly_property)
   \<and> heap_lookup (descriptors (step example_system (OpSetter 0 store_volume))) 0
       = Some (PropertyD (readonly_property\<lparr>property_set := Some store_volume\<rparr>))
   \<and> fst (set_sync readonly_property local_world (PInt 5))
       = Inl (ValueError ''Property has no setter'')
   \<and> fst (set_sync (readonly_property\<lparr>property_set := Some store_volume\<rparr>) local_world (PInt 5))
       = Inr PNone"
  by (simp add: example_system_def heap_lookup_def setter_def set_sync_def readonly_property_def
                store_volume_def)

section \<open>Proofs: what the override check does accept and reject\<close>

lemma override_loop_first_unmarked:
  assumes "map_of namespace key = Some v" and "\<forall>original. v \<noteq> NsOverload original"
  shows "override_loop (key # keys) bases namespace declared h sc =
           (Inl (TypeError
              ''Attempted to overload dbus defenition without using @dbus_overload decorator''), h)"
  using assms by (cases v) simp_all

text \<open>
  A class body with no key that a direct base declares is accepted as it is.
\<close>

lemma new_keys_accepted:
  assumes "\<forall>key \<in> fst ` set namespace.
             key \<notin> set (concat (map dbus_declared_interfaces (filter subclass_of_base bases)))"
  shows "\<exists>cls. fst (meta_new name bases namespace iname enabled h) = Inr cls
               \<and> class_dict cls = namespace"
proof -
  have "filter (\<lambda>key. key \<in> set (concat (map dbus_declared_interfaces
                                            (filter subclass_of_base bases))))
          (map fst namespace) = []"
    using assms by (auto simp: filter_empty_conv)
  then show ?thesis
    by (simp add: meta_new_def split: prod.splits)
qed

text \<open>
  A class body that uses no override marker and has a key that a direct base declares
  is rejected with the \<^verbatim>\<open>TypeError\<close> of the override check.
\<close>

lemma direct_redeclaration_rejected:
  assumes key: "key \<in> fst ` set namespace"
    and declared: "key \<in> set (concat (map dbus_declared_interfaces (filter subclass_of_base bases)))"
    and unmarked: "\<forall>kv \<in> set namespace. \<forall>original. snd kv \<noteq> NsOverload original"
  shows "fst (meta_new name bases namespace iname enabled h) =
           Inl (TypeError
              ''Attempted to overload dbus defenition without using @dbus_overload decorator'')"
proof -
  define keys where "keys = filter (\<lambda>key. key \<in> set (concat (map dbus_declared_interfaces
                                                 (filter subclass_of_base bases))))
                 (map fst namespace)"
  have "key \<in> set keys" using key declared by (auto simp: keys_def)
  then obtain k ks where ks: "keys = k # ks" by (cases keys) simp_all
  then have "k \<in> set keys" by simp
  then have "k \<in> fst ` set namespace" by (auto simp: keys_def)
  then obtain v where v: "map_of namespace k = Some v"
    by (cases "map_of namespace k") (simp_all add: map_of_eq_None_iff)
  then have "(k, v) \<in> set namespace" by (rule map_of_SomeD)
  with unmarked have nm: "\<forall>original. v \<noteq> NsOverload original" by auto
  obtain h1 d1 where st: "stamp_namespace namespace iname enabled h [] = (h1, d1)"
    by (cases "stamp_namespace namespace iname enabled h []") blast
  have ol: "override_loop keys bases namespace d1 h1 None =
           (Inl (TypeError
              ''Attempted to overload dbus defenition without using @dbus_overload decorator''), h1)"
    unfolding ks by (rule override_loop_first_unmarked [OF v nm])
  show ?thesis
    unfolding meta_new_def Let_def st prod.case keys_def [symmetric] ol by simp
qed

text \<open>
  The sanctioned override: a marked function at \<^verbatim>\<open>test_method\<close> in a subclass of the
  test's \<^verbatim>\<open>GoodDbusInterface\<close> is accepted and gets a copy of the base's descriptor with
  the new function; a marked replacement of the property is rejected.
\<close>

lemma marked_method_override_accepted:
  "meta_new ''Impl'' [GoodDbusInterface_class]
     [(''test_method'', NsOverload (plain_function ''test_method''))] None True stamped_heap
   = (Inr \<lparr>class_name = ''Impl'',
           class_dict = [(''test_method'', NsDescriptor 5)],
           subclass_of_base = True, dbus_declared_interfaces = [''test_method''],
           dbus_interface_name = None, dbus_serving_enabled = True\<rparr>,
      stamped_heap @
        [case decorated_method ''test_method'' ''TestMethod'' of
           MethodD m \<Rightarrow> MethodD (m\<lparr>original_method := plain_function ''test_method''\<rparr>)
         | d \<Rightarrow> d])"
  by (simp add: meta_new_def GoodDbusInterface_class_def stamped_heap_def heap_lookup_def
                decorated_method_def dict_set_def)

lemma marked_property_override_rejected:
  "fst (meta_new ''Impl'' [GoodDbusInterface_class]
          [(''test_property'', NsOverload (plain_function ''test_property''))] None True
          stamped_heap)
   = Inl (TypeError [])"
  by (simp add: meta_new_def GoodDbusInterface_class_def stamped_heap_def heap_lookup_def
                test_property_descriptor_def)

section \<open>Proofs: what a proxy call hands to the bus\<close>

text \<open>
  On a connected proxy, \<^verbatim>\<open>_call_dbus\<close> hands exactly one request to the engine: the
  method-call message for the remote object, carrying the positional list under the
  input signature (and no payload for an empty list); its result is the engine's answer.
\<close>

lemma call_dbus_sends:
  assumes "inst w = new_connect bus service path" and "interface_name m = Some iface"
  shows "call_dbus m w args =
           (bus_reply w
              ((new_method_call_message service path iface (method_name m))
                 \<lparr>msg_body := (if args = [] then [] else [(input_signature m, args)])\<rparr>),
            w\<lparr>bus_log := bus_log w @
                 [CallAsync bus
                    ((new_method_call_message service path iface (method_name m))
                       \<lparr>msg_body := (if args = [] then [] else [(input_signature m, args)])\<rparr>)]\<rparr>)"
  using assms
  by (simp add: call_dbus_def new_connect_def connect_def object_new_def append_data_def
                new_method_call_message_def Let_def)


section \<open>Proofs: where the assertions of emit fail\<close>

text \<open>
  With an active registration, a signal whose descriptor has no interface name fails
  the assertion of \<^verbatim>\<open>_emit_message\<close>: nothing is sent and nothing is delivered.
\<close>

lemma emit_unnamed_signal_fails:
  assumes "activated_interfaces (inst w) = Some acts" and "acts \<noteq> []"
    and "interface_name sg = None"
  shows "fst (emit sig_id sg w v) \<noteq> Inr PNone \<and> snd (emit sig_id sg w v) = w"
  using assms
  by (simp add: emit_def emit_message_def split: option.splits)

lemma emit_unnamed_signal_assertion:
  assumes "activated_interfaces (inst w) = Some acts" and "acts \<noteq> []"
    and "attached_bus (inst w) = Some bus"
    and "serving_object_path (inst w) = Some (Some path)"
    and "interface_name sg = None"
  shows "emit sig_id sg w v = (Inl AssertionError, w)"
  using assms by (simp add: emit_def emit_message_def)

text \<open>
  A dead reference in the signal's subscriber list fails the assertion in the loop of
  \<^verbatim>\<open>emit\<close>; it is not skipped.
\<close>

lemma emit_dead_reference_fails:
  assumes "activated_interfaces (inst w) = Some []"
    and "local_signal_queues (inst w) = Some d"
    and "\<exists>q \<in> set (subscribers d sig_id). queues w q = None"
  shows "fst (emit sig_id sg w v) = Inl AssertionError"
proof (cases "d sig_id")
  case None
  with assms(3) show ?thesis by (simp add: subscribers_def)
next
  case (Some l)
  with assms(3) have "\<exists>q \<in> set l. queues w q = None"
    by (simp add: subscribers_def)
  from put_all_dead [OF this, of v] show ?thesis
    using assms(1,2) Some by (simp add: emit_def)
qed

section \<open>Proofs: when a descriptor has well-formed argument fields\<close>

text \<open>
  A descriptor made by \<^verbatim>\<open>DbusMethod.__init__\<close> has well-formed argument fields exactly
  when the function has no more defaults than parameters after the receiver, that is,
  when its receiver has no default value.
\<close>

lemma DbusMethod_init_wf_iff:
  assumes "DbusMethod_init f name_opt in_sig res_sig res_names flags = Inr m"
  shows "wf_method m \<longleftrightarrow> length (fn_defaults f) \<le> length (tl (fn_args f))"
  using assms
  by (auto simp: DbusMethod_init_def wf_method_def split: sum.splits option.splits)

end
